theory Spec2Isabelle
  imports Main "HOL-Library.Char_ord" "HOL-Library.List_Lexorder" "HOL-Library.Product_Lexorder"
begin

section \<open>JavaScript option values\<close>

text \<open>
  The options handed to the constructors are untyped JavaScript values. The model keeps
  the values the constructors distinguish: \<open>undefined\<close>, \<open>null\<close>, booleans, numbers
  (integers, and NaN on its own) and objects.
\<close>

datatype js_value =
    Undefined
  | Null
  | Boolean bool
  | Number int
  | NaN
  | Object

text \<open>ToBoolean: what \<open>if (v)\<close>, \<open>!v\<close>, \<open>v ? a : b\<close> and \<open>a || b\<close> test.\<close>

fun truthy :: "js_value \<Rightarrow> bool" where
  "truthy Undefined = False"
| "truthy Null = False"
| "truthy (Boolean b) = b"
| "truthy (Number n) = (n \<noteq> 0)"
| "truthy NaN = False"
| "truthy Object = True"

text \<open>\<open>typeof v\<close>.\<close>

fun typeof :: "js_value \<Rightarrow> string" where
  "typeof Undefined = ''undefined''"
| "typeof Null = ''object''"
| "typeof (Boolean b) = ''boolean''"
| "typeof (Number n) = ''number''"
| "typeof NaN = ''number''"
| "typeof Object = ''object''"

text \<open>\<open>a || b\<close>: the first operand when it is truthy, the second otherwise.\<close>

definition js_or :: "js_value \<Rightarrow> js_value \<Rightarrow> js_value" where
  "js_or a b = (if truthy a then a else b)"

text \<open>ToNumber, with \<open>None\<close> for NaN.\<close>

fun to_number :: "js_value \<Rightarrow> int option" where
  "to_number Undefined = None"
| "to_number Null = Some 0"
| "to_number (Boolean b) = Some (if b then 1 else 0)"
| "to_number (Number n) = Some n"
| "to_number NaN = None"
| "to_number Object = None"

section \<open>Errors\<close>

text \<open>
  An exception is a value: an error built by the error factory carries the identifier it
  was created with, a failed assertion carries the name of the checked parameter, a
  \<open>TypeError\<close> of the language says what was attempted, and a rejected promise of the
  platform or of a callback (network, plugin) carries its reason.
\<close>

datatype error =
    GeneratedError string
  | AssertionError string
  | TypeError string
  | Rejection string

text \<open>
  Modelled from the spec: \<open>ErrorFactory.createError\<close> of \<open>./error-factory\<close> is not
  among the sources. The spec calls it structured error construction whose identifiers
  are stable strings for test assertions: the error carries the name it is created with.
\<close>

definition createError :: "string \<Rightarrow> error" where
  "createError name = GeneratedError name"

section \<open>JavaScript numbers\<close>

text \<open>
  Timestamps and counts are integers (milliseconds since the epoch, numbers of records);
  a number that may be NaN is an \<open>int option\<close> with \<open>None\<close> for NaN. Arithmetic
  with NaN gives NaN and every comparison with NaN is false.
\<close>

type_synonym js_number = "int option"

fun num_add :: "js_number \<Rightarrow> js_number \<Rightarrow> js_number" where
  "num_add (Some a) (Some b) = Some (a + b)"
| "num_add _ _ = None"

fun num_sub :: "js_number \<Rightarrow> js_number \<Rightarrow> js_number" where
  "num_sub (Some a) (Some b) = Some (a - b)"
| "num_sub _ _ = None"

fun num_mul :: "js_number \<Rightarrow> js_number \<Rightarrow> js_number" where
  "num_mul (Some a) (Some b) = Some (a * b)"
| "num_mul _ _ = None"

fun num_lt :: "js_number \<Rightarrow> js_number \<Rightarrow> bool" where
  "num_lt (Some a) (Some b) = (a < b)"
| "num_lt _ _ = False"

definition num_gt :: "js_number \<Rightarrow> js_number \<Rightarrow> bool" where
  "num_gt a b = num_lt b a"

section \<open>Requests and responses\<close>

text \<open>
  A Request is identified by its URL, which is what the response cache keys a GET
  request by. A Response carries its URL, status, type and headers (names in lower
  case, as \<open>headers.get\<close> looks them up).
\<close>

datatype request = Request (request_url: string)

record response =
  response_url :: string
  status :: nat
  response_type :: string
  headers :: "(string \<times> string) list"

text \<open>\<open>response.ok\<close>: the status is in the range 200 to 299.\<close>

definition ok :: "response \<Rightarrow> bool" where
  "ok r = (200 \<le> status r \<and> status r \<le> 299)"

text \<open>\<open>response.headers.get(name)\<close>: \<open>None\<close> is JavaScript's \<open>null\<close>.\<close>

definition headers_get :: "response \<Rightarrow> string \<Rightarrow> string option" where
  "headers_get r name = map_of (headers r) name"

section \<open>The plugin protocol\<close>

text \<open>
  What a \<open>requestWillFetch\<close> callback hands back: the wrapper asserts that it is a
  Promise, awaits it, and asserts that it resolved to a Request. A callback that throws
  rejects \<open>fetch\<close> with what it threw, as one whose Promise rejects does
  (\<open>RejectedWith\<close>).
\<close>

datatype resolved = ARequest request | NotARequest

datatype returned = NotAPromise | RejectedWith error | ResolvedTo resolved

text \<open>
  How the call of an observer callback (\<open>fetchDidFail\<close>, \<open>cacheDidUpdate\<close>) ends: it
  returns, or it throws. The wrapper does not read what it returns and does not await
  it.
\<close>

datatype completion = Returns | Throws error

text \<open>
  A plugin is a bag of callbacks; a hook it does not implement is absent. The two
  transform hooks and \<open>requestWillFetch\<close> are functions whose result the wrapper uses.
  A \<open>fetchDidFail\<close> callback is a function of the request it is called with, a
  \<open>cacheDidUpdate\<close> callback a function of the cache name, the old response and the new
  response; both return or throw. Every call of \<open>requestWillFetch\<close>, \<open>fetchDidFail\<close>
  and \<open>cacheDidUpdate\<close> is recorded with its arguments in the trace of the world.
\<close>

type_synonym options = "(string \<times> string) list"

record plugin =
  plugin_name :: string
  cb_cacheDidUpdate :: "(string \<Rightarrow> response option \<Rightarrow> response \<Rightarrow> completion) option"
  cb_cacheWillMatch :: "(response option \<Rightarrow> response option) option"
  cb_cacheWillUpdate :: "(request \<Rightarrow> response \<Rightarrow> bool) option"
  cb_fetchDidFail :: "(request \<Rightarrow> completion) option"
  cb_requestWillFetch :: "(request \<Rightarrow> returned) option"

text \<open>
  \<open>this.pluginCallbacks\<close>: for each hook name either no property (\<open>None\<close>) or the
  array of the callbacks registered so far, each bound to its plugin and paired with the
  plugin's name.
\<close>

record plugin_callbacks =
  cbs_cacheDidUpdate ::
    "(string \<times> (string \<Rightarrow> response option \<Rightarrow> response \<Rightarrow> completion)) list option"
  cbs_cacheWillMatch :: "(string \<times> (response option \<Rightarrow> response option)) list option"
  cbs_cacheWillUpdate :: "(string \<times> (request \<Rightarrow> response \<Rightarrow> bool)) list option"
  cbs_fetchDidFail :: "(string \<times> (request \<Rightarrow> completion)) list option"
  cbs_requestWillFetch :: "(string \<times> (request \<Rightarrow> returned)) list option"

definition no_callbacks :: plugin_callbacks where
  "no_callbacks = \<lparr> cbs_cacheDidUpdate = None, cbs_cacheWillMatch = None,
      cbs_cacheWillUpdate = None, cbs_fetchDidFail = None, cbs_requestWillFetch = None \<rparr>"

text \<open>
  \<open>if (!this.pluginCallbacks[callbackName]) this.pluginCallbacks[callbackName] = [];
  this.pluginCallbacks[callbackName].push(...)\<close>.
\<close>

definition push :: "'a list option \<Rightarrow> 'a \<Rightarrow> 'a list option" where
  "push l x = (case l of None \<Rightarrow> Some [x] | Some xs \<Rightarrow> Some (xs @ [x]))"

text \<open>
  The body of \<open>plugins.forEach\<close>: for each name of the list \<open>pluginCallbacks\<close> of the
  constants module (\<open>cacheDidUpdate\<close>, \<open>cacheWillMatch\<close>, \<open>cacheWillUpdate\<close>,
  \<open>fetchDidFail\<close>, \<open>requestWillFetch\<close>, in this order), the plugin's callback is pushed
  when the plugin has a function under that name.
\<close>

definition register_plugin :: "plugin_callbacks \<Rightarrow> plugin \<Rightarrow> plugin_callbacks" where
  "register_plugin cbs p =
    cbs\<lparr> cbs_cacheDidUpdate :=
           (case cb_cacheDidUpdate p of
              Some f \<Rightarrow> push (cbs_cacheDidUpdate cbs) (plugin_name p, f)
            | None \<Rightarrow> cbs_cacheDidUpdate cbs),
         cbs_cacheWillMatch :=
           (case cb_cacheWillMatch p of
              Some f \<Rightarrow> push (cbs_cacheWillMatch cbs) (plugin_name p, f)
            | None \<Rightarrow> cbs_cacheWillMatch cbs),
         cbs_cacheWillUpdate :=
           (case cb_cacheWillUpdate p of
              Some f \<Rightarrow> push (cbs_cacheWillUpdate cbs) (plugin_name p, f)
            | None \<Rightarrow> cbs_cacheWillUpdate cbs),
         cbs_fetchDidFail :=
           (case cb_fetchDidFail p of
              Some f \<Rightarrow> push (cbs_fetchDidFail cbs) (plugin_name p, f)
            | None \<Rightarrow> cbs_fetchDidFail cbs),
         cbs_requestWillFetch :=
           (case cb_requestWillFetch p of
              Some f \<Rightarrow> push (cbs_requestWillFetch cbs) (plugin_name p, f)
            | None \<Rightarrow> cbs_requestWillFetch cbs) \<rparr>"

section \<open>The request wrapper: construction\<close>

text \<open>
  The options of the constructor, with the types its documentation gives them: the
  type assertions of the constructor hold of every such input. \<open>None\<close> is an option
  left out.
\<close>

record wrapper_options =
  opt_cacheName :: "string option"
  opt_plugins :: "plugin list option"
  opt_fetchOptions :: "options option"
  opt_matchOptions :: "options option"

record RequestWrapper =
  rw_cacheName :: string
  rw_fetchOptions :: "options option"
  rw_matchOptions :: "options option"
  rw_pluginCallbacks :: plugin_callbacks

text \<open>
  \<open>defaultCacheName\<close> of the constants module: the prefix \<open>sw-runtime-caching\<close>, to
  which \<open>-\<close> and \<open>self.registration.scope\<close> are appended when the worker has a
  registration. The scope of the registration is a parameter, \<open>None\<close> when there is no
  registration.
\<close>

definition defaultCacheName :: "string option \<Rightarrow> string" where
  "defaultCacheName registration =
    (case registration of
       Some scope \<Rightarrow> ''sw-runtime-caching'' @ ''-'' @ scope
     | None \<Rightarrow> ''sw-runtime-caching'')"

text \<open>
  \<open>constructor({cacheName, plugins, fetchOptions, matchOptions} = {})\<close>. An empty
  cache name is falsy and gives the default name.
\<close>

definition RequestWrapper_constructor ::
  "string option \<Rightarrow> wrapper_options \<Rightarrow> error + RequestWrapper" where
  "RequestWrapper_constructor registration opts =
    (let name = (case opt_cacheName opts of
                   Some n \<Rightarrow> if n \<noteq> [] then n else defaultCacheName registration
                 | None \<Rightarrow> defaultCacheName registration);
         cbs = (case opt_plugins opts of
                  Some plugins \<Rightarrow> foldl register_plugin no_callbacks plugins
                | None \<Rightarrow> no_callbacks)
     in if (case cbs_cacheWillUpdate cbs of Some l \<Rightarrow> length l \<noteq> 1 | None \<Rightarrow> False)
          then Inl (createError ''multiple-cache-will-update-plugins'')
        else if (case cbs_cacheWillMatch cbs of Some l \<Rightarrow> length l \<noteq> 1 | None \<Rightarrow> False)
          then Inl (createError ''multiple-cache-will-match-plugins'')
        else Inr \<lparr> rw_cacheName = name,
                   rw_fetchOptions = opt_fetchOptions opts,
                   rw_matchOptions = opt_matchOptions opts,
                   rw_pluginCallbacks = cbs \<rparr>)"

section \<open>The platform: response caches, timestamp index, pending callbacks\<close>

text \<open>
  A record of the object store is \<open>{url, timestamp}\<close> with \<open>url\<close> the primary key.
  A database is named after the cache and holds one object store, named as the cache.
  A cursor on the \<open>timestamp\<close> index visits the records by ascending timestamp and,
  among equal timestamps, by ascending primary key.
\<close>

record entry =
  url :: string
  timestamp :: int

type_synonym object_store = "entry list"

type_synonym cache = "request \<Rightarrow> response option"

text \<open>
  The trace: the calls that leave the wrapper, in the order they are made, with their
  arguments. These are the calls to the network and to the cache, and the calls of the
  \<open>requestWillFetch\<close>, \<open>fetchDidFail\<close> and \<open>cacheDidUpdate\<close> callbacks (named by their
  plugin).
\<close>

datatype event =
    RequestWillFetchCalled string request
  | NetworkFetch request "options option"
  | FetchDidFailCalled string request
  | CacheMatch string request "options option"
  | CachePut string request response
  | CacheDidUpdateCalled string string "response option" response

text \<open>
  An asynchronous callback that has been started and not yet run to its end:
  \<^item> \<open>AwaitCacheDelete cacheName url\<close>: a callback of the \<open>forEach\<close> in
    \<open>deleteFromCacheAndIDB\<close>, suspended at \<open>await cache.delete(url)\<close>;
  \<^item> \<open>AwaitGetCache wrapper request cacheKey response newResponse\<close>: the callback
    given to \<open>this.getCache().then\<close> in \<open>fetchAndCache\<close>, with the variables it closes
    over.
\<close>

datatype suspended =
    AwaitCacheDelete string string
  | AwaitGetCache RequestWrapper request "request option" response response

record world =
  caches :: "string \<Rightarrow> cache"
  databases :: "string \<Rightarrow> string \<Rightarrow> object_store"
  suspended_callbacks :: "suspended list"
  trace :: "event list"

definition log_event :: "world \<Rightarrow> event \<Rightarrow> world" where
  "log_event w e = w\<lparr> trace := trace w @ [e] \<rparr>"

text \<open>
  \<open>cache.match(request, options)\<close>, \<open>cache.put(request, response)\<close> and
  \<open>cache.delete(request)\<close> on the cache of a given name. The match options only widen
  which stored requests count as the given one; the store is keyed by the request.
\<close>

definition cache_match :: "world \<Rightarrow> string \<Rightarrow> request \<Rightarrow> options option \<Rightarrow> response option" where
  "cache_match w cacheName req matchOptions = caches w cacheName req"

definition cache_put :: "world \<Rightarrow> string \<Rightarrow> request \<Rightarrow> response \<Rightarrow> world" where
  "cache_put w cacheName req resp =
    w\<lparr> caches := (caches w)(cacheName := (caches w cacheName)(req \<mapsto> resp)) \<rparr>"

definition cache_delete :: "world \<Rightarrow> string \<Rightarrow> request \<Rightarrow> world" where
  "cache_delete w cacheName req =
    w\<lparr> caches := (caches w)(cacheName := (caches w cacheName)(req := None)) \<rparr>"

text \<open>
  Modelled from the spec: the constant \<open>idbName\<close> of \<open>./constants\<close> is not among the
  sources; the database is named \<open>"sw-cache-expiration-" + cacheName\<close>.
\<close>

definition idbName :: string where
  "idbName = ''sw-cache-expiration''"

definition idbId :: "string \<Rightarrow> string" where
  "idbId cacheName = idbName @ ''-'' @ cacheName"

text \<open>\<open>getDB({cacheName})\<close> followed by \<open>tx.objectStore(cacheName)\<close>.\<close>

definition objectStore :: "world \<Rightarrow> string \<Rightarrow> object_store" where
  "objectStore w cacheName = databases w (idbId cacheName) cacheName"

definition set_objectStore :: "world \<Rightarrow> string \<Rightarrow> object_store \<Rightarrow> world" where
  "set_objectStore w cacheName s =
    w\<lparr> databases := (databases w)(idbId cacheName := ((databases w) (idbId cacheName))(cacheName := s)) \<rparr>"

text \<open>\<open>store.put(record)\<close>: replaces the record with the same primary key, or adds it.\<close>

fun store_put :: "entry \<Rightarrow> object_store \<Rightarrow> object_store" where
  "store_put e [] = [e]"
| "store_put e (x # xs) = (if url x = url e then e # xs else x # store_put e xs)"

text \<open>\<open>store.delete(url)\<close>.\<close>

definition store_delete :: "string \<Rightarrow> object_store \<Rightarrow> object_store" where
  "store_delete u s = filter (\<lambda>x. url x \<noteq> u) s"

text \<open>The records in the order a cursor on the timestamp index visits them.\<close>

definition timestampIndex :: "object_store \<Rightarrow> entry list" where
  "timestampIndex s = sort_key (\<lambda>x. (timestamp x, url x)) s"

text \<open>\<open>timestampIndex.count()\<close>.\<close>

definition index_count :: "object_store \<Rightarrow> int" where
  "index_count s = int (length (timestampIndex s))"

text \<open>\<open>updateTimestamp({cacheName, url, now})\<close>.\<close>

definition updateTimestamp :: "int \<Rightarrow> world \<Rightarrow> string \<Rightarrow> string \<Rightarrow> int option \<Rightarrow> world" where
  "updateTimestamp clock w cacheName u now =
    (let now' = (case now of None \<Rightarrow> clock | Some n \<Rightarrow> n) in
     set_objectStore w cacheName
       (store_put \<lparr> url = u, timestamp = now' \<rparr> (objectStore w cacheName)))"

section \<open>The cache expiration plugin: construction\<close>

record plugin_options =
  opt_maxEntries :: js_value
  opt_maxAgeSeconds :: js_value

record Plugin =
  maxEntries :: js_value
  maxAgeSeconds :: js_value

text \<open>
  \<open>constructor({maxEntries, maxAgeSeconds} = {})\<close>: the three checks in the order of
  the source, then the two fields are stored as given.
\<close>

definition Plugin_constructor :: "plugin_options \<Rightarrow> error + Plugin" where
  "Plugin_constructor opts =
    (if \<not> truthy (js_or (opt_maxEntries opts) (opt_maxAgeSeconds opts))
       then Inl (createError ''max-entries-or-age-required'')
     else if truthy (opt_maxEntries opts) \<and> typeof (opt_maxEntries opts) \<noteq> ''number''
       then Inl (createError ''max-entries-must-be-number'')
     else if truthy (opt_maxAgeSeconds opts) \<and> typeof (opt_maxAgeSeconds opts) \<noteq> ''number''
       then Inl (createError ''max-age-seconds-must-be-number'')
     else Inr \<lparr> maxEntries = opt_maxEntries opts,
                maxAgeSeconds = opt_maxAgeSeconds opts \<rparr>)"

text \<open>Whether a construction threw, and with what.\<close>

definition thrown :: "error + 'a \<Rightarrow> error option" where
  "thrown r = (case r of Inl e \<Rightarrow> Some e | Inr _ \<Rightarrow> None)"

section \<open>The cache expiration plugin: freshness\<close>

text \<open>
  \<open>isResponseFresh({cachedResponse, now})\<close>. The date parser of the platform
  (\<open>new Date(dateHeader).getTime()\<close>, NaN for an invalid date) and its clock
  (\<open>Date.now()\<close>) are parameters. \<open>cachedResponse\<close> is \<open>None\<close> when it is
  undefined or null, \<open>now\<close> is \<open>None\<close> when it is undefined.
\<close>

definition isResponseFresh ::
  "Plugin \<Rightarrow> (string \<Rightarrow> js_number) \<Rightarrow> int \<Rightarrow> response option \<Rightarrow> int option \<Rightarrow> bool" where
  "isResponseFresh P parseDate clock cachedResponse now =
    (case cachedResponse of
       None \<Rightarrow> True
     | Some r \<Rightarrow>
         if truthy (maxAgeSeconds P) then
           (case headers_get r ''date'' of
              None \<Rightarrow> True
            | Some dateHeader \<Rightarrow>
                if dateHeader \<noteq> [] then
                  (let now' = (case now of None \<Rightarrow> clock | Some n \<Rightarrow> n) in
                   if num_lt (num_add (parseDate dateHeader)
                                (num_mul (to_number (maxAgeSeconds P)) (Some 1000)))
                        (Some now')
                   then False else True)
                else True)
         else True)"

text \<open>\<open>cacheWillMatch({cachedResponse, now})\<close>: the response when fresh, null otherwise.\<close>

definition cacheWillMatch ::
  "Plugin \<Rightarrow> (string \<Rightarrow> js_number) \<Rightarrow> int \<Rightarrow> response option \<Rightarrow> int option
    \<Rightarrow> response option" where
  "cacheWillMatch P parseDate clock cachedResponse now =
    (if isResponseFresh P parseDate clock cachedResponse now then cachedResponse else None)"

section \<open>The cache expiration plugin: finding entries to expire\<close>

text \<open>
  The cursor callback of \<open>findOldEntries\<close>, run over the records the cursor still has to
  visit: a null cursor ends the walk; otherwise the URL is pushed when the timestamp is
  below the threshold, and the cursor always continues.
\<close>

fun oldEntries_cursor :: "js_number \<Rightarrow> entry list \<Rightarrow> string list \<Rightarrow> string list" where
  "oldEntries_cursor expireOlderThan [] urls = urls"
| "oldEntries_cursor expireOlderThan (c # rest) urls =
     oldEntries_cursor expireOlderThan rest
       (if num_lt (Some (timestamp c)) expireOlderThan then urls @ [url c] else urls)"

definition findOldEntries :: "Plugin \<Rightarrow> world \<Rightarrow> string \<Rightarrow> int \<Rightarrow> string list" where
  "findOldEntries P w cacheName now =
    (let expireOlderThan = num_sub (Some now) (num_mul (to_number (maxAgeSeconds P)) (Some 1000))
     in oldEntries_cursor expireOlderThan (timestampIndex (objectStore w cacheName)) [])"

text \<open>
  The cursor callback of \<open>findExtraEntries\<close>: the URL is pushed, and the cursor
  continues only while \<open>initialCount - urls.length > this.maxEntries\<close>.
\<close>

fun extraEntries_cursor :: "int \<Rightarrow> js_number \<Rightarrow> entry list \<Rightarrow> string list \<Rightarrow> string list" where
  "extraEntries_cursor initialCount maxE [] urls = urls"
| "extraEntries_cursor initialCount maxE (c # rest) urls =
     (let urls' = urls @ [url c] in
      if num_gt (Some (initialCount - int (length urls'))) maxE
      then extraEntries_cursor initialCount maxE rest urls'
      else urls')"

definition findExtraEntries :: "Plugin \<Rightarrow> world \<Rightarrow> string \<Rightarrow> string list" where
  "findExtraEntries P w cacheName =
    (let initialCount = index_count (objectStore w cacheName) in
     if num_gt (Some initialCount) (to_number (maxEntries P))
     then extraEntries_cursor initialCount (to_number (maxEntries P))
            (timestampIndex (objectStore w cacheName)) []
     else [])"

section \<open>The cache expiration plugin: expiring entries\<close>

text \<open>
  \<open>[...new Set(xs)]\<close>: a Set keeps its elements in the order of their first
  insertion, and adding an element it already holds changes nothing.
\<close>

definition Set_add :: "string list \<Rightarrow> string \<Rightarrow> string list" where
  "Set_add acc x = (if x \<in> set acc then acc else acc @ [x])"

definition new_Set :: "string list \<Rightarrow> string list" where
  "new_Set xs = foldl Set_add [] xs"

text \<open>
  \<open>deleteFromCacheAndIDB({cacheName, urls})\<close>. \<open>urls.forEach(async (url) => ...)\<close>
  starts one asynchronous callback for each URL and returns \<open>undefined\<close>; each callback
  runs up to its first \<open>await\<close>, where it has asked the cache to delete the URL and is
  suspended until the cache answers. \<open>await undefined\<close> does not wait for any of them:
  the method is done with the callbacks still suspended.
\<close>

definition deleteFromCacheAndIDB :: "world \<Rightarrow> string \<Rightarrow> string list \<Rightarrow> world" where
  "deleteFromCacheAndIDB w cacheName urls =
    (if length urls > 0
     then w\<lparr> suspended_callbacks :=
               suspended_callbacks w @ map (AwaitCacheDelete cacheName) urls \<rparr>
     else w)"

text \<open>
  \<open>expireEntries({cacheName, now})\<close>: the URLs it resolves with, and the state at the
  moment its promise resolves.
\<close>

definition expireEntries ::
  "Plugin \<Rightarrow> int \<Rightarrow> world \<Rightarrow> string \<Rightarrow> int option \<Rightarrow> string list \<times> world" where
  "expireEntries P clock w cacheName now =
    (let now' = (case now of None \<Rightarrow> clock | Some n \<Rightarrow> n);
         oldEntries = (if truthy (maxAgeSeconds P) then findOldEntries P w cacheName now' else []);
         extraEntries = (if truthy (maxEntries P) then findExtraEntries P w cacheName else []);
         urls = new_Set (oldEntries @ extraEntries)
     in (urls, deleteFromCacheAndIDB w cacheName urls))"

section \<open>The request wrapper: match and fetch\<close>

text \<open>
  Modelled from the spec: \<open>assert.atLeastOne\<close> of \<open>lib/assert\<close> is not among the
  sources. It is an argument assertion that fails when the argument is missing; a
  missing \<open>request\<close> is \<open>None\<close>.
\<close>

definition atLeastOne :: "string \<Rightarrow> 'a option \<Rightarrow> error + 'a" where
  "atLeastOne name v = (case v of None \<Rightarrow> Inl (AssertionError name) | Some x \<Rightarrow> Inr x)"

text \<open>
  \<open>match({request})\<close>: the cache is read with the wrapper's match options, and the
  first \<open>cacheWillMatch\<close> callback, when the hook is registered, transforms what was
  read. \<open>getCache\<close> opens the cache named \<open>this.cacheName\<close> once and keeps it; the
  handle is the name.
\<close>

definition match :: "RequestWrapper \<Rightarrow> world \<Rightarrow> request option \<Rightarrow> (error + response option) \<times> world" where
  "match W w request =
    (case atLeastOne ''request'' request of
       Inl e \<Rightarrow> (Inl e, w)
     | Inr req \<Rightarrow>
         (let w1 = log_event w (CacheMatch (rw_cacheName W) req (rw_matchOptions W));
              cachedResponse = cache_match w (rw_cacheName W) req (rw_matchOptions W)
          in case cbs_cacheWillMatch (rw_pluginCallbacks W) of
               None \<Rightarrow> (Inr cachedResponse, w1)
             | Some [] \<Rightarrow> (Inl (TypeError ''cacheWillMatch[0] is not a function''), w1)
             | Some ((n, f) # _) \<Rightarrow> (Inr (f cachedResponse), w1)))"

text \<open>
  The loop over the \<open>requestWillFetch\<close> callbacks: each is called with the current
  request; its result must be a Promise, which is awaited, and must resolve to a Request,
  which becomes the current request.
\<close>

fun requestWillFetch_loop ::
  "(string \<times> (request \<Rightarrow> returned)) list \<Rightarrow> request \<Rightarrow> world \<Rightarrow> (error + request) \<times> world" where
  "requestWillFetch_loop [] req w = (Inr req, w)"
| "requestWillFetch_loop ((n, callback) # rest) req w =
    (let w1 = log_event w (RequestWillFetchCalled n req) in
     case callback req of
       NotAPromise \<Rightarrow> (Inl (AssertionError ''returnedPromise''), w1)
     | RejectedWith e \<Rightarrow> (Inl e, w1)
     | ResolvedTo NotARequest \<Rightarrow> (Inl (AssertionError ''returnedRequest''), w1)
     | ResolvedTo (ARequest returnedRequest) \<Rightarrow> requestWillFetch_loop rest returnedRequest w1)"

text \<open>
  The loop over the \<open>fetchDidFail\<close> callbacks in the \<open>catch\<close> block. Nothing guards
  the call: a callback that throws ends the loop, and what it threw leaves the block
  (\<open>Some\<close>) in place of the network's error.
\<close>

fun fetchDidFail_loop ::
  "(string \<times> (request \<Rightarrow> completion)) list \<Rightarrow> request \<Rightarrow> world \<Rightarrow> error option \<times> world" where
  "fetchDidFail_loop [] req w = (None, w)"
| "fetchDidFail_loop ((n, callback) # rest) req w =
    (let w1 = log_event w (FetchDidFailCalled n req) in
     case callback req of
       Returns \<Rightarrow> fetchDidFail_loop rest req w1
     | Throws e \<Rightarrow> (Some e, w1))"

text \<open>
  \<open>fetch({request})\<close>. The network (\<open>fetch(request, this.fetchOptions)\<close> of the
  platform) is a parameter: it resolves with a response or rejects with an error.
\<close>

definition fetch ::
  "RequestWrapper \<Rightarrow> (request \<Rightarrow> options option \<Rightarrow> error + response) \<Rightarrow> world \<Rightarrow> request option
    \<Rightarrow> (error + response) \<times> world" where
  "fetch W network w request =
    (case atLeastOne ''request'' request of
       Inl e \<Rightarrow> (Inl e, w)
     | Inr req \<Rightarrow>
         (case (case cbs_requestWillFetch (rw_pluginCallbacks W) of
                  None \<Rightarrow> (Inr req, w)
                | Some callbacks \<Rightarrow> requestWillFetch_loop callbacks req w) of
            (Inl e, w1) \<Rightarrow> (Inl e, w1)
          | (Inr req', w1) \<Rightarrow>
              (let w2 = log_event w1 (NetworkFetch req' (rw_fetchOptions W)) in
               case network req' (rw_fetchOptions W) of
                 Inr resp \<Rightarrow> (Inr resp, w2)
               | Inl err \<Rightarrow>
                   (case cbs_fetchDidFail (rw_pluginCallbacks W) of
                      None \<Rightarrow> (Inl err, w2)
                    | Some callbacks \<Rightarrow>
                        (case fetchDidFail_loop callbacks req' w2 of
                           (Some e, w3) \<Rightarrow> (Inl e, w3)
                         | (None, w3) \<Rightarrow> (Inl err, w3))))))"

section \<open>The request wrapper: fetchAndCache\<close>

text \<open>
  The loop over the \<open>cacheDidUpdate\<close> callbacks. Nothing guards the call: a callback
  that throws ends the loop, and what it threw (\<open>Some\<close>) rejects the caching.
\<close>

fun cacheDidUpdate_loop ::
  "(string \<times> (string \<Rightarrow> response option \<Rightarrow> response \<Rightarrow> completion)) list
    \<Rightarrow> string \<Rightarrow> response option \<Rightarrow> response \<Rightarrow> world \<Rightarrow> error option \<times> world" where
  "cacheDidUpdate_loop [] cacheName oldResponse newResponse w = (None, w)"
| "cacheDidUpdate_loop ((n, callback) # rest) cacheName oldResponse newResponse w =
    (let w1 = log_event w (CacheDidUpdateCalled n cacheName oldResponse newResponse) in
     case callback cacheName oldResponse newResponse of
       Returns \<Rightarrow> cacheDidUpdate_loop rest cacheName oldResponse newResponse w1
     | Throws e \<Rightarrow> (Some e, w1))"

text \<open>
  The callback given to \<open>this.getCache().then\<close>: the old response is read through
  \<open>this.match\<close> only when the new response is not opaque and a \<open>cacheDidUpdate\<close>
  callback is registered (it stays \<open>undefined\<close> otherwise); the clone is put under
  \<open>cacheKey || request\<close>; then the \<open>cacheDidUpdate\<close> callbacks are called.
\<close>

definition cachingComplete ::
  "RequestWrapper \<Rightarrow> world \<Rightarrow> request \<Rightarrow> request option \<Rightarrow> response \<Rightarrow> response
    \<Rightarrow> (error + unit) \<times> world" where
  "cachingComplete W w req cacheKey resp newResponse =
    (case (if response_type resp \<noteq> ''opaque'' \<and> cbs_cacheDidUpdate (rw_pluginCallbacks W) \<noteq> None
           then match W w (Some req)
           else (Inr None, w)) of
       (Inl e, w1) \<Rightarrow> (Inl e, w1)
     | (Inr oldResponse, w1) \<Rightarrow>
         (let cacheRequest = (case cacheKey of Some k \<Rightarrow> k | None \<Rightarrow> req);
              w2 = log_event (cache_put w1 (rw_cacheName W) cacheRequest newResponse)
                     (CachePut (rw_cacheName W) cacheRequest newResponse);
              callbacks = (case cbs_cacheDidUpdate (rw_pluginCallbacks W) of
                             Some l \<Rightarrow> l | None \<Rightarrow> [])
          in case cacheDidUpdate_loop callbacks (rw_cacheName W) oldResponse newResponse w2 of
               (Some e, w3) \<Rightarrow> (Inl e, w3)
             | (None, w3) \<Rightarrow> (Inr (), w3)))"

text \<open>
  \<open>fetchAndCache({request, waitOnCache, cacheKey})\<close>: the outcome of the returned
  promise and the world at the moment it settles. With \<open>waitOnCache\<close> the caching
  callback has run to its end by then; without it the callback is still pending.
  A response's clone is the same value.
\<close>

definition fetchAndCache ::
  "RequestWrapper \<Rightarrow> (request \<Rightarrow> options option \<Rightarrow> error + response) \<Rightarrow> world
    \<Rightarrow> request option \<Rightarrow> bool \<Rightarrow> request option \<Rightarrow> (error + response) \<times> world" where
  "fetchAndCache W network w request waitOnCache cacheKey =
    (case atLeastOne ''request'' request of
       Inl e \<Rightarrow> (Inl e, w)
     | Inr req \<Rightarrow>
         (case fetch W network w (Some req) of
            (Inl e, w1) \<Rightarrow> (Inl e, w1)
          | (Inr resp, w1) \<Rightarrow>
              (case (case cbs_cacheWillUpdate (rw_pluginCallbacks W) of
                       None \<Rightarrow> Inr (ok resp)
                     | Some [] \<Rightarrow> Inl (TypeError ''cacheWillUpdate[0] is not a function'')
                     | Some ((n, f) # _) \<Rightarrow> Inr (f req resp)) of
                 Inl e \<Rightarrow> (Inl e, w1)
               | Inr cacheable \<Rightarrow>
                   if cacheable then
                     (let newResponse = resp in
                      if waitOnCache then
                        (case cachingComplete W w1 req cacheKey resp newResponse of
                           (Inl e, w2) \<Rightarrow> (Inl e, w2)
                         | (Inr _, w2) \<Rightarrow> (Inr resp, w2))
                      else
                        (Inr resp,
                         w1\<lparr> suspended_callbacks := suspended_callbacks w1 @
                               [AwaitGetCache W req cacheKey resp newResponse] \<rparr>))
                   else if \<not> cacheable \<and> waitOnCache then
                     (Inl (createError ''invalid-reponse-for-caching''), w1)
                   else (Inr resp, w1))))"

section \<open>Running the pending callbacks\<close>

text \<open>
  A suspended callback run to its end. For \<open>AwaitCacheDelete\<close>: the cache has answered,
  the response is gone from the cache, and the callback deletes the record in a
  read-write transaction of its own. For \<open>AwaitGetCache\<close>: the caching callback of
  \<open>fetchAndCache\<close>; nobody awaits it, so an error it ends with is dropped.
\<close>

fun resume :: "world \<Rightarrow> suspended \<Rightarrow> world" where
  "resume w (AwaitCacheDelete cacheName u) =
    (let w1 = cache_delete w cacheName (Request u)
     in set_objectStore w1 cacheName (store_delete u (objectStore w1 cacheName)))"
| "resume w (AwaitGetCache W req cacheKey resp newResponse) =
    snd (cachingComplete W w req cacheKey resp newResponse)"

text \<open>The world once every pending callback has run to its end, oldest first.\<close>

definition run_suspended :: "world \<Rightarrow> world" where
  "run_suspended w = foldl resume (w\<lparr> suspended_callbacks := [] \<rparr>) (suspended_callbacks w)"

section \<open>Definitions for the statements\<close>

text \<open>The callbacks registered under a hook name, none when the property is absent.\<close>

definition registered :: "'a list option \<Rightarrow> 'a list" where
  "registered l = (case l of None \<Rightarrow> [] | Some xs \<Rightarrow> xs)"

text \<open>
  A \<open>requestWillFetch\<close> callback that behaves as the protocol asks: called with a
  request, it returns a Promise that resolves to the Request \<open>P request\<close>.
\<close>

definition resolving :: "string \<times> (request \<Rightarrow> request) \<Rightarrow> string \<times> (request \<Rightarrow> returned)" where
  "resolving = (\<lambda>(n, P). (n, \<lambda>r. ResolvedTo (ARequest (P r))))"

text \<open>
  The calls the specification expects of \<open>fetch\<close> for plugins \<open>[P1, ..., Pn]\<close>:
  each callback receives the request the previous one resolved with, and the network
  receives \<open>Pn(...P1(request))\<close>.
\<close>

fun spec_requestWillFetch_calls :: "request \<Rightarrow> (string \<times> (request \<Rightarrow> request)) list \<Rightarrow> event list" where
  "spec_requestWillFetch_calls r [] = []"
| "spec_requestWillFetch_calls r ((n, P) # Ps) =
     RequestWillFetchCalled n r # spec_requestWillFetch_calls (P r) Ps"

definition spec_network_request :: "request \<Rightarrow> (string \<times> (request \<Rightarrow> request)) list \<Rightarrow> request" where
  "spec_network_request r Ps = foldl (\<lambda>x (n, P). P x) r Ps"

text \<open>
  Of the \<open>fetchDidFail\<close> callbacks, those that are called with a request: all of them
  up to and including the first that throws. And what that first one throws, if any does.
\<close>

definition observers_called ::
  "(string \<times> (request \<Rightarrow> completion)) list \<Rightarrow> request
    \<Rightarrow> (string \<times> (request \<Rightarrow> completion)) list" where
  "observers_called obs req =
    take (Suc (length (takeWhile (\<lambda>(n, cb). cb req = Returns) obs))) obs"

definition first_thrown ::
  "(string \<times> (request \<Rightarrow> completion)) list \<Rightarrow> request \<Rightarrow> error option" where
  "first_thrown obs req =
    (case dropWhile (\<lambda>(n, cb). cb req = Returns) obs of
       [] \<Rightarrow> None
     | (n, cb) # _ \<Rightarrow> (case cb req of Throws e \<Rightarrow> Some e | Returns \<Rightarrow> None))"

text \<open>
  The same for the \<open>cacheDidUpdate\<close> callbacks, called with a cache name, an old and a
  new response.
\<close>

definition updates_called ::
  "(string \<times> (string \<Rightarrow> response option \<Rightarrow> response \<Rightarrow> completion)) list
    \<Rightarrow> string \<Rightarrow> response option \<Rightarrow> response
    \<Rightarrow> (string \<times> (string \<Rightarrow> response option \<Rightarrow> response \<Rightarrow> completion)) list" where
  "updates_called cbs cacheName old new =
    take (Suc (length (takeWhile (\<lambda>(n, cb). cb cacheName old new = Returns) cbs))) cbs"

definition update_thrown ::
  "(string \<times> (string \<Rightarrow> response option \<Rightarrow> response \<Rightarrow> completion)) list
    \<Rightarrow> string \<Rightarrow> response option \<Rightarrow> response \<Rightarrow> error option" where
  "update_thrown cbs cacheName old new =
    (case dropWhile (\<lambda>(n, cb). cb cacheName old new = Returns) cbs of
       [] \<Rightarrow> None
     | (n, cb) # _ \<Rightarrow> (case cb cacheName old new of Throws e \<Rightarrow> Some e | Returns \<Rightarrow> None))"

text \<open>The events of the trace of \<open>w'\<close> that were added after the world \<open>w\<close>.\<close>

definition trace_since :: "world \<Rightarrow> world \<Rightarrow> event list" where
  "trace_since w w' = drop (length (trace w)) (trace w')"


text \<open>How many plugins of a list provide each of the two transform hooks.\<close>

definition providers_cacheWillUpdate :: "plugin list \<Rightarrow> nat" where
  "providers_cacheWillUpdate ps = length (filter (\<lambda>p. cb_cacheWillUpdate p \<noteq> None) ps)"

definition providers_cacheWillMatch :: "plugin list \<Rightarrow> nat" where
  "providers_cacheWillMatch ps = length (filter (\<lambda>p. cb_cacheWillMatch p \<noteq> None) ps)"

text \<open>No property of \<open>pluginCallbacks\<close> is ever an empty array.\<close>

definition no_empty_array :: "plugin_callbacks \<Rightarrow> bool" where
  "no_empty_array cbs =
    (cbs_cacheDidUpdate cbs \<noteq> Some [] \<and> cbs_cacheWillMatch cbs \<noteq> Some []
     \<and> cbs_cacheWillUpdate cbs \<noteq> Some [] \<and> cbs_fetchDidFail cbs \<noteq> Some []
     \<and> cbs_requestWillFetch cbs \<noteq> Some [])"

text \<open>
  The judgement \<open>cacheable\<close> of \<open>fetchAndCache\<close>: the answer of the registered
  \<open>cacheWillUpdate\<close> callback, and \<open>response.ok\<close> when none is registered.
\<close>

definition spec_cacheable :: "RequestWrapper \<Rightarrow> request \<Rightarrow> response \<Rightarrow> bool" where
  "spec_cacheable W req resp =
    (case cbs_cacheWillUpdate (rw_pluginCallbacks W) of
       None \<Rightarrow> ok resp
     | Some l \<Rightarrow> snd (hd l) req resp)"

text \<open>
  The old response handed to the \<open>cacheDidUpdate\<close> callbacks: when at least one such
  callback is registered and the new response is not opaque, it is what the wrapper's
  own \<open>match\<close> gives for the request before the put, that is the cached value passed
  through the registered \<open>cacheWillMatch\<close> callback; otherwise it is \<open>undefined\<close>.
\<close>

definition spec_oldResponse :: "RequestWrapper \<Rightarrow> world \<Rightarrow> request \<Rightarrow> response \<Rightarrow> response option" where
  "spec_oldResponse W w req resp =
    (if registered (cbs_cacheDidUpdate (rw_pluginCallbacks W)) \<noteq> [] \<and> response_type resp \<noteq> ''opaque''
     then (case cbs_cacheWillMatch (rw_pluginCallbacks W) of
             None \<Rightarrow> caches w (rw_cacheName W) req
           | Some l \<Rightarrow> snd (hd l) (caches w (rw_cacheName W) req))
     else None)"

text \<open>
  The calls of a cache write, in order: the lookup of the old response when it is made,
  the put, and one call of each \<open>cacheDidUpdate\<close> callback, up to the first that throws.
\<close>

definition spec_caching_calls ::
  "RequestWrapper \<Rightarrow> world \<Rightarrow> request \<Rightarrow> request option \<Rightarrow> response \<Rightarrow> event list" where
  "spec_caching_calls W w req cacheKey resp =
    (if registered (cbs_cacheDidUpdate (rw_pluginCallbacks W)) \<noteq> [] \<and> response_type resp \<noteq> ''opaque''
     then [CacheMatch (rw_cacheName W) req (rw_matchOptions W)] else [])
    @ [CachePut (rw_cacheName W) (case cacheKey of Some k \<Rightarrow> k | None \<Rightarrow> req) resp]
    @ map (\<lambda>(n, cb). CacheDidUpdateCalled n (rw_cacheName W) (spec_oldResponse W w req resp) resp)
        (updates_called (registered (cbs_cacheDidUpdate (rw_pluginCallbacks W)))
           (rw_cacheName W) (spec_oldResponse W w req resp) resp)"

text \<open>
  A URL is expired in a world when the cache of that name holds no response for it and
  the timestamp store of that cache holds no record of it.
\<close>

definition expired :: "world \<Rightarrow> string \<Rightarrow> string \<Rightarrow> bool" where
  "expired w cacheName u =
    (caches w cacheName (Request u) = None \<and> u \<notin> url ` set (objectStore w cacheName))"

section \<open>Example inputs\<close>

text \<open>Plugins that implement one hook each.\<close>

definition no_plugin :: "string \<Rightarrow> plugin" where
  "no_plugin n = \<lparr> plugin_name = n, cb_cacheDidUpdate = None, cb_cacheWillMatch = None,
      cb_cacheWillUpdate = None, cb_fetchDidFail = None, cb_requestWillFetch = None \<rparr>"

definition add_version :: "request \<Rightarrow> request" where
  "add_version r = Request (request_url r @ ''?v=1'')"

definition add_lang :: "request \<Rightarrow> request" where
  "add_lang r = Request (request_url r @ ''&l=en'')"

definition version_plugin :: plugin where
  "version_plugin = (no_plugin ''version'')
     \<lparr> cb_requestWillFetch := Some (\<lambda>r. ResolvedTo (ARequest (add_version r))) \<rparr>"

definition lang_plugin :: plugin where
  "lang_plugin = (no_plugin ''lang'')
     \<lparr> cb_requestWillFetch := Some (\<lambda>r. ResolvedTo (ARequest (add_lang r))) \<rparr>"

definition failure_observer :: plugin where
  "failure_observer = (no_plugin ''failures'') \<lparr> cb_fetchDidFail := Some (\<lambda>r. Returns) \<rparr>"

definition throwing_observer :: plugin where
  "throwing_observer = (no_plugin ''thrower'')
     \<lparr> cb_fetchDidFail := Some (\<lambda>r. Throws (Rejection ''observer failed'')) \<rparr>"

definition update_only :: "string \<Rightarrow> plugin" where
  "update_only n = (no_plugin n) \<lparr> cb_cacheWillUpdate := Some (\<lambda>req resp. True) \<rparr>"

definition match_only :: "string \<Rightarrow> plugin" where
  "match_only n = (no_plugin n) \<lparr> cb_cacheWillMatch := Some (\<lambda>c. c) \<rparr>"

text \<open>
  Wrappers on the cache \<open>t\<close>: the options they are built from and the wrappers the
  constructor gives.
\<close>

definition options_with :: "plugin list \<Rightarrow> wrapper_options" where
  "options_with ps = \<lparr> opt_cacheName = Some ''t'', opt_plugins = Some ps,
      opt_fetchOptions = None, opt_matchOptions = None \<rparr>"

definition wrapper_with :: "plugin_callbacks \<Rightarrow> RequestWrapper" where
  "wrapper_with cbs = \<lparr> rw_cacheName = ''t'', rw_fetchOptions = None, rw_matchOptions = None,
      rw_pluginCallbacks = cbs \<rparr>"

definition rewriting_wrapper :: RequestWrapper where
  "rewriting_wrapper = wrapper_with (no_callbacks
     \<lparr> cbs_fetchDidFail := Some [(''failures'', \<lambda>r. Returns)],
       cbs_requestWillFetch := Some [(''version'', \<lambda>r. ResolvedTo (ARequest (add_version r))),
                                     (''lang'', \<lambda>r. ResolvedTo (ARequest (add_lang r)))] \<rparr>)"

definition observed_wrapper :: RequestWrapper where
  "observed_wrapper = wrapper_with (no_callbacks
     \<lparr> cbs_fetchDidFail := Some [(''thrower'', \<lambda>r. Throws (Rejection ''observer failed'')),
                                 (''failures'', \<lambda>r. Returns)] \<rparr>)"

definition plain_wrapper :: RequestWrapper where
  "plain_wrapper = wrapper_with no_callbacks"

text \<open>Networks, responses and worlds.\<close>

definition network_down :: "request \<Rightarrow> options option \<Rightarrow> error + response" where
  "network_down r fo = Inl (Rejection ''offline'')"

definition network_serving :: "response \<Rightarrow> request \<Rightarrow> options option \<Rightarrow> error + response" where
  "network_serving resp r fo = Inr resp"

definition response_200 :: response where
  "response_200 = \<lparr> response_url = ''/a'', status = 200, response_type = ''basic'', headers = [] \<rparr>"

definition response_404 :: response where
  "response_404 = \<lparr> response_url = ''/a'', status = 404, response_type = ''basic'', headers = [] \<rparr>"

definition empty_world :: world where
  "empty_world = \<lparr> caches = (\<lambda>n r. None), databases = (\<lambda>d s. []),
      suspended_callbacks = [], trace = [] \<rparr>"


definition ttl_plugin :: Plugin where
  "ttl_plugin = \<lparr> maxEntries = Undefined, maxAgeSeconds = Number 10 \<rparr>"

definition lru_plugin :: Plugin where
  "lru_plugin = \<lparr> maxEntries = Number 1, maxAgeSeconds = Undefined \<rparr>"

definition example_parseDate :: "string \<Rightarrow> js_number" where
  "example_parseDate d = (if d = ''Thu, 01 Jan 1970 00:00:01 GMT'' then Some 1000 else None)"

definition stale_response :: response where
  "stale_response = \<lparr> response_url = ''/a'', status = 200, response_type = ''basic'',
      headers = [(''date'', ''Thu, 01 Jan 1970 00:00:01 GMT'')] \<rparr>"

definition expiration_plugin :: plugin where
  "expiration_plugin = (no_plugin ''expiration'')
     \<lparr> cb_cacheDidUpdate := Some (\<lambda>c old new. Returns),
       cb_cacheWillMatch := Some (\<lambda>c. cacheWillMatch ttl_plugin example_parseDate 20000 c None) \<rparr>"

definition expiring_wrapper :: RequestWrapper where
  "expiring_wrapper = wrapper_with (no_callbacks
     \<lparr> cbs_cacheDidUpdate := Some [(''expiration'', \<lambda>c old new. Returns)],
       cbs_cacheWillMatch :=
         Some [(''expiration'', \<lambda>c. cacheWillMatch ttl_plugin example_parseDate 20000 c None)] \<rparr>)"

definition stale_world :: world where
  "stale_world = \<lparr> caches = (\<lambda>n r. if n = ''t'' \<and> r = Request ''/a'' then Some stale_response else None),
      databases = (\<lambda>d s. []), suspended_callbacks = [], trace = [] \<rparr>"

definition two_entries_world :: world where
  "two_entries_world =
    \<lparr> caches = (\<lambda>n r. if n = ''t'' \<and> (r = Request ''/a'' \<or> r = Request ''/b'')
                       then Some response_200 else None),
      databases = (\<lambda>d s. if d = ''sw-cache-expiration-t'' \<and> s = ''t''
                          then [\<lparr> url = ''/b'', timestamp = 2 \<rparr>, \<lparr> url = ''/a'', timestamp = 1 \<rparr>]
                          else []),
      suspended_callbacks = [], trace = [] \<rparr>"

section \<open>Facts about the expiration plugin\<close>

subsection \<open>The walk of \<open>findExtraEntries\<close>\<close>

lemma extraEntries_cursor_take:
  "extraEntries_cursor c (Some n) xs urls =
     urls @ map url (take (nat (max 1 (c - n - int (length urls)))) xs)"
proof (induction xs arbitrary: urls)
  case Nil
  then show ?case by simp
next
  case (Cons x xs)
  show ?case
  proof (cases "n < c - int (length urls) - 1")
    case True
    define k where "k = nat (c - n - int (length urls) - 1)"
    have e1: "nat (max 1 (c - n - int (length (urls @ [url x])))) = k"
      using True unfolding k_def by (auto simp: max_def)
    have e2: "nat (max 1 (c - n - int (length urls))) = Suc k"
      using True unfolding k_def by (auto simp: max_def)
    have "extraEntries_cursor c (Some n) (x # xs) urls
            = extraEntries_cursor c (Some n) xs (urls @ [url x])"
      using True by (simp add: num_gt_def Let_def)
    also have "\<dots> = (urls @ [url x]) @ map url (take k xs)"
      by (simp only: Cons.IH e1)
    also have "\<dots> = urls @ map url (take (Suc k) (x # xs))"
      by simp
    finally show ?thesis by (simp only: e2)
  next
    case False
    then have "nat (max 1 (c - n - int (length urls))) = Suc 0" by simp
    with False show ?thesis
      by (simp add: num_gt_def Let_def)
  qed
qed

lemma findExtraEntries_take:
  assumes "maxEntries P = Number (int N)" and "length (objectStore w c) = N + M" and "0 < M"
  shows "findExtraEntries P w c = map url (take M (timestampIndex (objectStore w c)))"
proof -
  have "nat (max 1 (int (N + M) - int N)) = M" using assms(3) by simp
  then show ?thesis
  using assms
  by (simp add: findExtraEntries_def index_count_def timestampIndex_def num_gt_def
        extraEntries_cursor_take Let_def)
qed

lemma findExtraEntries_within:
  assumes "maxEntries P = Number (int N)" and "length (objectStore w c) \<le> N"
  shows "findExtraEntries P w c = []"
  using assms
  by (simp add: findExtraEntries_def index_count_def timestampIndex_def num_gt_def Let_def)

lemma timestampIndex_set: "set (timestampIndex s) = set s"
  by (simp add: timestampIndex_def)

lemma timestampIndex_length: "length (timestampIndex s) = length s"
  by (simp add: timestampIndex_def)

lemma timestampIndex_distinct:
  "distinct (map url s) \<Longrightarrow> distinct (map url (timestampIndex s))"
  by (simp add: timestampIndex_def distinct_map)

lemma sorted_pair_fst:
  "sorted (map (\<lambda>x. (timestamp x, url x)) xs) \<Longrightarrow> sorted (map timestamp xs)"
  by (induction xs) (auto simp: less_eq_prod_def)

lemma timestampIndex_sorted: "sorted (map timestamp (timestampIndex s))"
  unfolding timestampIndex_def by (rule sorted_pair_fst) (rule sorted_sort_key)

lemma sorted_take_le_drop:
  assumes "sorted (map timestamp xs)" "a \<in> set (take k xs)" "b \<in> set (drop k xs)"
  shows "timestamp a \<le> timestamp b"
proof -
  have "sorted (map timestamp (take k xs) @ map timestamp (drop k xs))"
    using assms(1) by (simp flip: map_append)
  then show ?thesis using assms(2,3) by (auto simp: sorted_append)
qed

text \<open>
  C4. For an expiration plugin with \<open>maxEntries = N\<close> and a timestamp store of
  \<open>N + M\<close> records, \<open>M > 0\<close>, \<open>findExtraEntries\<close> returns the URLs of exactly \<open>M\<close>
  records of the store, in ascending order of timestamp, and no record it leaves out
  has a smaller timestamp than one it returns: the \<open>M\<close> least recently stored, oldest
  first. When the store holds at most \<open>N\<close> records it returns the empty list. The
  records of a store have distinct URLs, the URL being the primary key.
\<close>

theorem findExtraEntries_least_recently_stored:
  assumes "maxEntries P = Number (int N)"
    and "distinct (map url (objectStore w c))"
  shows "(length (objectStore w c) \<le> N \<longrightarrow> findExtraEntries P w c = [])
    \<and> (\<forall>M. 0 < M \<and> length (objectStore w c) = N + M \<longrightarrow>
          (\<exists>es. findExtraEntries P w c = map url es
              \<and> length es = M
              \<and> distinct (map url es)
              \<and> set es \<subseteq> set (objectStore w c)
              \<and> sorted (map timestamp es)
              \<and> (\<forall>a \<in> set es. \<forall>b \<in> set (objectStore w c) - set es.
                    timestamp a \<le> timestamp b)))"
proof (intro conjI allI impI)
  assume "length (objectStore w c) \<le> N"
  with assms(1) show "findExtraEntries P w c = []"
    by (rule findExtraEntries_within)
next
  fix M
  assume M: "0 < M \<and> length (objectStore w c) = N + M"
  let ?s = "objectStore w c"
  let ?es = "take M (timestampIndex ?s)"
  have res: "findExtraEntries P w c = map url ?es"
    using assms(1) M by (simp add: findExtraEntries_take)
  have len: "length ?es = M"
    using M by (simp add: timestampIndex_length)
  have dist: "distinct (map url ?es)"
    using timestampIndex_distinct [OF assms(2)] by (simp add: take_map [symmetric] distinct_take del: take_map)
  have sub: "set ?es \<subseteq> set ?s"
    using set_take_subset [of M "timestampIndex ?s"] by (simp add: timestampIndex_set)
  have srt: "sorted (map timestamp ?es)"
    using timestampIndex_sorted [of ?s] by (simp add: take_map [symmetric] sorted_wrt_take del: take_map)
  have low: "\<forall>a \<in> set ?es. \<forall>b \<in> set ?s - set ?es. timestamp a \<le> timestamp b"
  proof (intro ballI)
    fix a b
    assume a: "a \<in> set ?es" and b: "b \<in> set ?s - set ?es"
    have "set (timestampIndex ?s) = set ?es \<union> set (drop M (timestampIndex ?s))"
      by (metis append_take_drop_id set_append)
    with b have "b \<in> set (drop M (timestampIndex ?s))"
      by (auto simp: timestampIndex_set)
    with a show "timestamp a \<le> timestamp b"
      using sorted_take_le_drop [OF timestampIndex_sorted] by blast
  qed
  from res len dist sub srt low
  show "\<exists>es. findExtraEntries P w c = map url es
              \<and> length es = M
              \<and> distinct (map url es)
              \<and> set es \<subseteq> set (objectStore w c)
              \<and> sorted (map timestamp es)
              \<and> (\<forall>a \<in> set es. \<forall>b \<in> set (objectStore w c) - set es.
                    timestamp a \<le> timestamp b)"
    by blast
qed

theorem findExtraEntries_least_recently_stored_witness:
  "length (objectStore two_entries_world ''t'') = 1 + 1
   \<and> (\<exists>es. findExtraEntries lru_plugin two_entries_world ''t'' = map url es
          \<and> length es = 1
          \<and> distinct (map url es)
          \<and> set es \<subseteq> set (objectStore two_entries_world ''t'')
          \<and> sorted (map timestamp es)
          \<and> (\<forall>a \<in> set es. \<forall>b \<in> set (objectStore two_entries_world ''t'') - set es.
                timestamp a \<le> timestamp b))"
proof -
  have s: "objectStore two_entries_world ''t''
      = [\<lparr> url = ''/b'', timestamp = 2 \<rparr>, \<lparr> url = ''/a'', timestamp = 1 \<rparr>]"
    by (simp add: two_entries_world_def objectStore_def idbId_def idbName_def)
  have h1: "maxEntries lru_plugin = Number (int 1)" by (simp add: lru_plugin_def)
  have h2: "distinct (map url (objectStore two_entries_world ''t''))" by (simp add: s)
  have len: "0 < (1::nat) \<and> length (objectStore two_entries_world ''t'') = 1 + 1" by (simp add: s)
  from findExtraEntries_least_recently_stored [OF h1 h2] len show ?thesis
    by blast
qed

subsection \<open>Freshness\<close>



subsection \<open>Expiring entries\<close>

text \<open>
  Once the callbacks that \<open>deleteFromCacheAndIDB\<close> started have run to their end, every
  URL that \<open>expireEntries\<close> returned is gone from the cache and from the timestamp store.
\<close>

lemma resume_delete_expired: "expired (resume w (AwaitCacheDelete c u)) c u"
  by (auto simp: expired_def objectStore_def set_objectStore_def cache_delete_def
        store_delete_def Let_def)

lemma resume_delete_keeps_expired:
  "expired w c u \<Longrightarrow> expired (resume w (AwaitCacheDelete c u')) c u"
  by (auto simp: expired_def objectStore_def set_objectStore_def cache_delete_def
        store_delete_def Let_def)

lemma foldl_resume_expired:
  "u \<in> set us \<Longrightarrow> expired (foldl resume w (map (AwaitCacheDelete c) us)) c u"
proof (induction us rule: rev_induct)
  case Nil
  then show ?case by simp
next
  case (snoc x xs)
  show ?case
  proof (cases "u = x")
    case True
    then show ?thesis by (simp add: resume_delete_expired del: resume.simps)
  next
    case False
    with snoc have "expired (foldl resume w (map (AwaitCacheDelete c) xs)) c u" by simp
    then show ?thesis by (simp add: resume_delete_keeps_expired del: resume.simps)
  qed
qed

lemma expireEntries_eventually_expired:
  assumes "suspended_callbacks w = []"
    and "u \<in> set (fst (expireEntries P clock w c now))"
  shows "expired (run_suspended (snd (expireEntries P clock w c now))) c u"
proof -
  obtain urls where e: "expireEntries P clock w c now = (urls, deleteFromCacheAndIDB w c urls)"
    by (simp add: expireEntries_def Let_def)
  with assms(2) have u: "u \<in> set urls" by simp
  then have "urls \<noteq> []" by auto
  then have "run_suspended (deleteFromCacheAndIDB w c urls)
      = foldl resume (w\<lparr> suspended_callbacks := [] \<rparr>) (map (AwaitCacheDelete c) urls)"
    using assms(1) by (simp add: run_suspended_def deleteFromCacheAndIDB_def)
  with u show ?thesis by (simp add: e foldl_resume_expired)
qed

text \<open>
  C1. The claim is that no response and no timestamp record exists for a returned URL
  once the promise of \<open>expireEntries\<close> has resolved. With \<open>maxEntries = 1\<close>, a cache
  holding \<open>/a\<close> and \<open>/b\<close> and a timestamp store holding \<open>/b\<close> at 2 and \<open>/a\<close> at 1,
  \<open>expireEntries\<close> resolves with \<open>[/a]\<close> while the record of \<open>/a\<close> is still in the
  store and its deletion from the cache is still awaited: \<open>await urls.forEach(...)\<close>
  awaits \<open>undefined\<close>, not the deletions. Both are gone only after the pending callback
  has run.
\<close>

theorem expireEntries_resolves_before_deletes:
  "fst (expireEntries lru_plugin 0 two_entries_world ''t'' (Some 5)) = [''/a'']
   \<and> objectStore (snd (expireEntries lru_plugin 0 two_entries_world ''t'' (Some 5))) ''t''
     = [\<lparr> url = ''/b'', timestamp = 2 \<rparr>, \<lparr> url = ''/a'', timestamp = 1 \<rparr>]
   \<and> suspended_callbacks (snd (expireEntries lru_plugin 0 two_entries_world ''t'' (Some 5)))
     = [AwaitCacheDelete ''t'' ''/a'']
   \<and> objectStore (run_suspended (snd (expireEntries lru_plugin 0 two_entries_world ''t'' (Some 5)))) ''t''
     = [\<lparr> url = ''/b'', timestamp = 2 \<rparr>]
   \<and> caches (run_suspended (snd (expireEntries lru_plugin 0 two_entries_world ''t'' (Some 5))))
        ''t'' (Request ''/a'')
     = None"
proof -
  have e: "expireEntries lru_plugin 0 two_entries_world ''t'' (Some 5)
      = ([''/a''], two_entries_world\<lparr> suspended_callbacks := [AwaitCacheDelete ''t'' ''/a''] \<rparr>)"
    by (simp add: expireEntries_def lru_plugin_def two_entries_world_def findExtraEntries_def
          objectStore_def idbId_def idbName_def index_count_def timestampIndex_def num_gt_def
          new_Set_def Set_add_def deleteFromCacheAndIDB_def Let_def)
  show ?thesis
    unfolding e
    by (simp add: two_entries_world_def objectStore_def set_objectStore_def idbId_def idbName_def
          run_suspended_def cache_delete_def store_delete_def Let_def)
qed

subsection \<open>Construction with a zero option\<close>

text \<open>
  C10. Constructing the expiration plugin with \<open>maxEntries\<close> equal to the number 0 and
  no \<open>maxAgeSeconds\<close> throws \<open>max-entries-or-age-required\<close>, not a type error, and
  does not succeed; the same holds for \<open>maxAgeSeconds = 0\<close> alone. A zero option is
  treated as an absent one: whatever the other option is, the constructor throws the
  same error, or none, as it does when the zero option is left out.
\<close>

theorem Plugin_constructor_zero_is_absent:
  "Plugin_constructor \<lparr> opt_maxEntries = Number 0, opt_maxAgeSeconds = Undefined \<rparr>
     = Inl (createError ''max-entries-or-age-required'')
   \<and> Plugin_constructor \<lparr> opt_maxEntries = Undefined, opt_maxAgeSeconds = Number 0 \<rparr>
     = Inl (createError ''max-entries-or-age-required'')
   \<and> createError ''max-entries-or-age-required'' \<noteq> createError ''max-entries-must-be-number''
   \<and> thrown (Plugin_constructor \<lparr> opt_maxEntries = Number 0, opt_maxAgeSeconds = v \<rparr>)
     = thrown (Plugin_constructor \<lparr> opt_maxEntries = Undefined, opt_maxAgeSeconds = v \<rparr>)
   \<and> thrown (Plugin_constructor \<lparr> opt_maxEntries = v, opt_maxAgeSeconds = Number 0 \<rparr>)
     = thrown (Plugin_constructor \<lparr> opt_maxEntries = v, opt_maxAgeSeconds = Undefined \<rparr>)"
  by (simp add: Plugin_constructor_def js_or_def thrown_def createError_def)

section \<open>Facts about the request wrapper\<close>

subsection \<open>Construction\<close>

lemma push_registered: "registered (push l x) = registered l @ [x]"
  by (simp add: push_def registered_def split: option.splits)

lemma register_cacheWillUpdate:
  "registered (cbs_cacheWillUpdate (foldl register_plugin cbs ps)) =
     registered (cbs_cacheWillUpdate cbs)
       @ List.map_filter (\<lambda>p. map_option (Pair (plugin_name p)) (cb_cacheWillUpdate p)) ps"
  by (induction ps arbitrary: cbs)
     (auto simp: register_plugin_def push_registered List.map_filter_simps split: option.splits)

lemma register_cacheWillMatch:
  "registered (cbs_cacheWillMatch (foldl register_plugin cbs ps)) =
     registered (cbs_cacheWillMatch cbs)
       @ List.map_filter (\<lambda>p. map_option (Pair (plugin_name p)) (cb_cacheWillMatch p)) ps"
  by (induction ps arbitrary: cbs)
     (auto simp: register_plugin_def push_registered List.map_filter_simps split: option.splits)

lemma push_not_empty: "push l x \<noteq> Some []"
  by (simp add: push_def split: option.splits)

lemma register_plugin_no_empty_array:
  "no_empty_array cbs \<Longrightarrow> no_empty_array (register_plugin cbs p)"
  by (auto simp: no_empty_array_def register_plugin_def push_not_empty split: option.splits)

lemma foldl_register_no_empty_array:
  "no_empty_array cbs \<Longrightarrow> no_empty_array (foldl register_plugin cbs ps)"
  by (induction ps arbitrary: cbs) (simp_all add: register_plugin_no_empty_array)

lemma registered_callbacks_no_empty_array:
  "no_empty_array (case opt_plugins opts of
                  Some plugins \<Rightarrow> foldl register_plugin no_callbacks plugins
                | None \<Rightarrow> no_callbacks)"
proof -
  have "no_empty_array no_callbacks" by (simp add: no_empty_array_def no_callbacks_def)
  then show ?thesis
    by (auto split: option.splits intro: foldl_register_no_empty_array)
qed

lemma constructor_no_empty_array:
  assumes "RequestWrapper_constructor registration opts = Inr W"
  shows "no_empty_array (rw_pluginCallbacks W)"
  using assms registered_callbacks_no_empty_array [of opts]
  by (auto simp: RequestWrapper_constructor_def Let_def split: if_splits)

lemma length_map_filter_option:
  "length (List.map_filter (\<lambda>p. map_option (g p) (f p)) ps) = length (filter (\<lambda>p. f p \<noteq> None) ps)"
  by (induction ps) (auto simp: List.map_filter_simps split: option.splits)

lemma registered_length_cases:
  "(case l of Some xs \<Rightarrow> length xs \<noteq> 1 | None \<Rightarrow> False) \<longleftrightarrow> (l \<noteq> None \<and> length (registered l) \<noteq> 1)"
  by (simp add: registered_def split: option.splits)


lemma expiring_wrapper_constructed:
  "RequestWrapper_constructor (Some ''/'') (options_with [expiration_plugin]) = Inr expiring_wrapper"
  by (simp add: RequestWrapper_constructor_def options_with_def expiration_plugin_def
        no_plugin_def register_plugin_def no_callbacks_def push_def
        expiring_wrapper_def wrapper_with_def Let_def)

lemma rewriting_wrapper_constructed:
  "RequestWrapper_constructor (Some ''/'') (options_with [version_plugin, lang_plugin, failure_observer])
     = Inr rewriting_wrapper"
  by (simp add: RequestWrapper_constructor_def options_with_def version_plugin_def lang_plugin_def
        failure_observer_def no_plugin_def register_plugin_def no_callbacks_def push_def
        rewriting_wrapper_def wrapper_with_def Let_def)

text \<open>
  C9. Constructing a wrapper from a plugin list in which two or more plugins provide
  \<open>cacheWillUpdate\<close> throws \<open>multiple-cache-will-update-plugins\<close>; likewise, for a list
  that passes this first check, two or more plugins that provide \<open>cacheWillMatch\<close> make
  it throw \<open>multiple-cache-will-match-plugins\<close>; with at most one of each, construction
  succeeds.
\<close>

theorem constructor_single_transform:
  assumes "plugins = (case opt_plugins opts of Some ps \<Rightarrow> ps | None \<Rightarrow> [])"
  shows "(2 \<le> providers_cacheWillUpdate plugins \<longrightarrow>
            RequestWrapper_constructor registration opts
              = Inl (createError ''multiple-cache-will-update-plugins''))
       \<and> (providers_cacheWillUpdate plugins \<le> 1 \<and> 2 \<le> providers_cacheWillMatch plugins \<longrightarrow>
            RequestWrapper_constructor registration opts
              = Inl (createError ''multiple-cache-will-match-plugins''))
       \<and> (providers_cacheWillUpdate plugins \<le> 1 \<and> providers_cacheWillMatch plugins \<le> 1 \<longrightarrow>
            (\<exists>W. RequestWrapper_constructor registration opts = Inr W))"
proof -
  let ?cbs = "(case opt_plugins opts of
                  Some ps \<Rightarrow> foldl register_plugin no_callbacks ps
                | None \<Rightarrow> no_callbacks)"
  have ne: "no_empty_array ?cbs"
    by (rule registered_callbacks_no_empty_array)
  have U0': "registered (cbs_cacheWillUpdate no_callbacks) = []"
    and M0': "registered (cbs_cacheWillMatch no_callbacks) = []"
    by (simp_all add: registered_def no_callbacks_def)
  have U: "length (registered (cbs_cacheWillUpdate ?cbs)) = providers_cacheWillUpdate plugins"
    by (cases "opt_plugins opts")
       (simp_all add: assms providers_cacheWillUpdate_def register_cacheWillUpdate
          length_map_filter_option U0')
  have M: "length (registered (cbs_cacheWillMatch ?cbs)) = providers_cacheWillMatch plugins"
    by (cases "opt_plugins opts")
       (simp_all add: assms providers_cacheWillMatch_def register_cacheWillMatch
          length_map_filter_option M0')
  have U0: "cbs_cacheWillUpdate ?cbs = None \<longleftrightarrow> providers_cacheWillUpdate plugins = 0"
  proof (cases "cbs_cacheWillUpdate ?cbs")
    case None
    with U show ?thesis by (simp add: registered_def)
  next
    case (Some a)
    with ne have "a \<noteq> []" by (auto simp: no_empty_array_def)
    moreover from Some U have "length a = providers_cacheWillUpdate plugins"
      by (simp add: registered_def)
    ultimately have "providers_cacheWillUpdate plugins \<noteq> 0" by (metis length_0_conv)
    then show ?thesis using Some by simp
  qed
  have M0: "cbs_cacheWillMatch ?cbs = None \<longleftrightarrow> providers_cacheWillMatch plugins = 0"
  proof (cases "cbs_cacheWillMatch ?cbs")
    case None
    with M show ?thesis by (simp add: registered_def)
  next
    case (Some a)
    with ne have "a \<noteq> []" by (auto simp: no_empty_array_def)
    moreover from Some M have "length a = providers_cacheWillMatch plugins"
      by (simp add: registered_def)
    ultimately have "providers_cacheWillMatch plugins \<noteq> 0" by (metis length_0_conv)
    then show ?thesis using Some by simp
  qed
  show ?thesis
    unfolding RequestWrapper_constructor_def Let_def registered_length_cases U M U0 M0
    by auto
qed

theorem constructor_single_transform_witness:
  "RequestWrapper_constructor (Some ''/'') (options_with [update_only ''p1'', update_only ''p2''])
     = Inl (createError ''multiple-cache-will-update-plugins'')
   \<and> RequestWrapper_constructor (Some ''/'') (options_with [match_only ''p1'', match_only ''p2''])
     = Inl (createError ''multiple-cache-will-match-plugins'')
   \<and> (\<exists>W. RequestWrapper_constructor (Some ''/'') (options_with [update_only ''p1'', match_only ''p2''])
         = Inr W)"
proof -
  have p: "ps = (case opt_plugins (options_with ps) of Some ps \<Rightarrow> ps | None \<Rightarrow> [])" for ps
    by (simp add: options_with_def)
  show ?thesis
    using constructor_single_transform [OF p [of "[update_only ''p1'', update_only ''p2'']"], of "Some ''/''"]
          constructor_single_transform [OF p [of "[match_only ''p1'', match_only ''p2'']"], of "Some ''/''"]
          constructor_single_transform [OF p [of "[update_only ''p1'', match_only ''p2'']"], of "Some ''/''"]
    by (simp add: providers_cacheWillUpdate_def providers_cacheWillMatch_def update_only_def
          match_only_def no_plugin_def)
qed

subsection \<open>The calls of \<open>fetch\<close>\<close>

lemma requestWillFetch_loop_resolving:
  "requestWillFetch_loop (map resolving Ps) r w =
     (Inr (spec_network_request r Ps), w\<lparr> trace := trace w @ spec_requestWillFetch_calls r Ps \<rparr>)"
proof (induction Ps arbitrary: r w)
  case Nil
  then show ?case by (simp add: spec_network_request_def)
next
  case (Cons a Ps)
  obtain n P where a: "a = (n, P)" by (cases a)
  show ?case
    by (simp add: a resolving_def [unfolded] Cons.IH [unfolded resolving_def] log_event_def spec_network_request_def Let_def)
qed

lemma fetchDidFail_loop_trace:
  "fetchDidFail_loop obs r w =
     (first_thrown obs r,
      w\<lparr> trace := trace w @ map (\<lambda>(n, cb). FetchDidFailCalled n r) (observers_called obs r) \<rparr>)"
proof (induction obs arbitrary: w)
  case Nil
  then show ?case by (simp add: first_thrown_def observers_called_def)
next
  case (Cons a obs)
  obtain n cb where a: "a = (n, cb)" by (cases a)
  show ?case
  proof (cases "cb r")
    case Returns
    then show ?thesis
      by (simp add: a Cons.IH log_event_def first_thrown_def observers_called_def Let_def)
  next
    case (Throws e)
    then show ?thesis
      by (simp add: a log_event_def first_thrown_def observers_called_def Let_def)
  qed
qed

lemma observers_called_all:
  "\<forall>(n, cb) \<in> set obs. cb r = Returns \<Longrightarrow>
     observers_called obs r = obs \<and> first_thrown obs r = None"
proof -
  assume "\<forall>(n, cb) \<in> set obs. cb r = Returns"
  then have "\<forall>x \<in> set obs. (\<lambda>(n, cb). cb r = Returns) x" by auto
  then have t: "takeWhile (\<lambda>(n, cb). cb r = Returns) obs = obs"
    and d: "dropWhile (\<lambda>(n, cb). cb r = Returns) obs = []"
    by simp_all
  show ?thesis
    unfolding observers_called_def first_thrown_def t d by simp
qed

lemma fetch_resolving:
  assumes "registered (cbs_requestWillFetch (rw_pluginCallbacks W)) = map resolving Ps"
  shows "fetch W network w (Some r) =
    ((case network (spec_network_request r Ps) (rw_fetchOptions W) of
        Inr resp \<Rightarrow> Inr resp
      | Inl err \<Rightarrow>
          Inl (case first_thrown (registered (cbs_fetchDidFail (rw_pluginCallbacks W)))
                      (spec_network_request r Ps) of
                 None \<Rightarrow> err | Some e \<Rightarrow> e)),
     w\<lparr> trace := trace w @ spec_requestWillFetch_calls r Ps
          @ [NetworkFetch (spec_network_request r Ps) (rw_fetchOptions W)]
          @ (case network (spec_network_request r Ps) (rw_fetchOptions W) of
               Inr _ \<Rightarrow> []
             | Inl _ \<Rightarrow> map (\<lambda>(n, cb). FetchDidFailCalled n (spec_network_request r Ps))
                         (observers_called (registered (cbs_fetchDidFail (rw_pluginCallbacks W)))
                            (spec_network_request r Ps))) \<rparr>)"
proof -
  have loop: "(case cbs_requestWillFetch (rw_pluginCallbacks W) of
                  None \<Rightarrow> (Inr r, w)
                | Some callbacks \<Rightarrow> requestWillFetch_loop callbacks r w)
      = (Inr (spec_network_request r Ps), w\<lparr> trace := trace w @ spec_requestWillFetch_calls r Ps \<rparr>)"
  proof (cases "cbs_requestWillFetch (rw_pluginCallbacks W)")
    case None
    with assms have "Ps = []" by (simp add: registered_def)
    with None show ?thesis by (simp add: spec_network_request_def)
  next
    case (Some l)
    with assms have "l = map resolving Ps" by (simp add: registered_def)
    with Some show ?thesis by (simp add: requestWillFetch_loop_resolving)
  qed
  have none: "observers_called [] x = [] \<and> first_thrown [] x = None" for x
    by (simp add: observers_called_def first_thrown_def)
  show ?thesis
    unfolding fetch_def atLeastOne_def
    by (simp add: loop log_event_def fetchDidFail_loop_trace registered_def none Let_def
          split: sum.splits option.splits)
qed

lemma requestWillFetch_loop_only_trace:
  "requestWillFetch_loop cbs r w = (res, w1) \<Longrightarrow> \<exists>evs. w1 = w\<lparr> trace := trace w @ evs \<rparr>"
proof (induction cbs arbitrary: r w)
  case Nil
  then have "w1 = w\<lparr> trace := trace w @ [] \<rparr>" by simp
  then show ?case by blast
next
  case (Cons a cbs)
  obtain n cb where a: "a = (n, cb)" by (cases a)
  let ?w = "log_event w (RequestWillFetchCalled n r)"
  have here: "?w = w\<lparr> trace := trace w @ [RequestWillFetchCalled n r] \<rparr>"
    by (simp add: log_event_def)
  show ?case
  proof (cases "\<exists>r'. cb r = ResolvedTo (ARequest r')")
    case True
    then obtain r' where r': "cb r = ResolvedTo (ARequest r')" by blast
    with Cons.prems a have "requestWillFetch_loop cbs r' ?w = (res, w1)"
      by (simp add: Let_def)
    from Cons.IH [OF this] obtain evs where "w1 = ?w\<lparr> trace := trace ?w @ evs \<rparr>" by blast
    then have "w1 = w\<lparr> trace := trace w @ (RequestWillFetchCalled n r # evs) \<rparr>"
      by (simp add: here)
    then show ?thesis by blast
  next
    case False
    with Cons.prems a have "w1 = ?w"
      by (auto simp: Let_def split: returned.splits resolved.splits)
    with here show ?thesis by blast
  qed
qed

lemma fetch_only_trace:
  assumes "fetch W network w request = (res, w1)"
  shows "\<exists>evs. w1 = w\<lparr> trace := trace w @ evs \<rparr>"
proof (cases request)
  case None
  with assms have "w1 = w\<lparr> trace := trace w @ [] \<rparr>" by (simp add: fetch_def atLeastOne_def)
  then show ?thesis by blast
next
  case (Some r)
  obtain res0 w0 where loop: "(case cbs_requestWillFetch (rw_pluginCallbacks W) of
                  None \<Rightarrow> (Inr r, w)
                | Some callbacks \<Rightarrow> requestWillFetch_loop callbacks r w) = (res0, w0)"
    by (cases "(case cbs_requestWillFetch (rw_pluginCallbacks W) of
                  None \<Rightarrow> (Inr r, w)
                | Some callbacks \<Rightarrow> requestWillFetch_loop callbacks r w)")
  have "\<exists>evs. w0 = w\<lparr> trace := trace w @ evs \<rparr>"
  proof (cases "cbs_requestWillFetch (rw_pluginCallbacks W)")
    case None
    with loop have "w0 = w\<lparr> trace := trace w @ [] \<rparr>" by simp
    then show ?thesis by blast
  next
    case (Some l)
    with loop show ?thesis by (auto dest: requestWillFetch_loop_only_trace)
  qed
  then obtain evs0 where w0: "w0 = w\<lparr> trace := trace w @ evs0 \<rparr>" by blast
  show ?thesis
  proof (cases res0)
    case (Inl e)
    with assms Some loop have "w1 = w0" by (simp add: fetch_def atLeastOne_def)
    with w0 show ?thesis by blast
  next
    case (Inr r')
    let ?w2 = "log_event w0 (NetworkFetch r' (rw_fetchOptions W))"
    have w2: "?w2 = w\<lparr> trace := trace w @ evs0 @ [NetworkFetch r' (rw_fetchOptions W)] \<rparr>"
      by (simp add: w0 log_event_def)
    have "w1 = ?w2 \<or> (\<exists>l e. fetchDidFail_loop l r' ?w2 = (e, w1))"
      using assms Some loop Inr
      by (auto simp: fetch_def atLeastOne_def Let_def split: sum.splits option.splits prod.splits)
    then show ?thesis
    proof
      assume "w1 = ?w2" with w2 show ?thesis by blast
    next
      assume "\<exists>l e. fetchDidFail_loop l r' ?w2 = (e, w1)"
      then obtain l e where "fetchDidFail_loop l r' ?w2 = (e, w1)" by blast
      then have "w1 = w\<lparr> trace := trace w @ (evs0 @ [NetworkFetch r' (rw_fetchOptions W)]
                        @ map (\<lambda>(n, cb). FetchDidFailCalled n r') (observers_called l r')) \<rparr>"
        by (simp add: fetchDidFail_loop_trace w2)
      then show ?thesis by blast
    qed
  qed
qed

text \<open>
  C6. For a wrapper whose \<open>requestWillFetch\<close> callbacks are \<open>[P1, ..., Pn]\<close> in the
  order of registration, each resolving to a Request, and an original request \<open>r\<close>:
  \<open>fetch\<close> calls the callbacks one after the other, each with the request the
  previous one resolved with, then calls the network with \<open>Pn(...P1(r))\<close>. It resolves
  with the response the network gives on that request; when the network rejects it
  rejects with the network's error, or with what a \<open>fetchDidFail\<close> callback threw.
\<close>

theorem fetch_requestWillFetch_order:
  assumes "registered (cbs_requestWillFetch (rw_pluginCallbacks W)) = map resolving Ps"
  shows "fst (fetch W network w (Some r))
           = (case network (spec_network_request r Ps) (rw_fetchOptions W) of
                Inr resp \<Rightarrow> Inr resp
              | Inl err \<Rightarrow>
                  Inl (case first_thrown (registered (cbs_fetchDidFail (rw_pluginCallbacks W)))
                              (spec_network_request r Ps) of
                         None \<Rightarrow> err | Some e \<Rightarrow> e))
       \<and> take (length Ps + 1) (trace_since w (snd (fetch W network w (Some r))))
           = spec_requestWillFetch_calls r Ps
             @ [NetworkFetch (spec_network_request r Ps) (rw_fetchOptions W)]"
proof -
  have len: "length (spec_requestWillFetch_calls x Ps) = length Ps" for x
    by (induction Ps arbitrary: x) auto
  show ?thesis
    by (simp add: fetch_resolving [OF assms] trace_since_def len)
qed

theorem fetch_requestWillFetch_order_witness:
  "fst (fetch rewriting_wrapper (network_serving response_200) empty_world (Some (Request ''/a'')))
     = network_serving response_200 (add_lang (add_version (Request ''/a''))) None
   \<and> take 3 (trace_since empty_world
        (snd (fetch rewriting_wrapper (network_serving response_200) empty_world (Some (Request ''/a'')))))
     = [RequestWillFetchCalled ''version'' (Request ''/a''),
        RequestWillFetchCalled ''lang'' (add_version (Request ''/a'')),
        NetworkFetch (add_lang (add_version (Request ''/a''))) None]"
proof -
  have h: "registered (cbs_requestWillFetch (rw_pluginCallbacks rewriting_wrapper))
      = map resolving [(''version'', add_version), (''lang'', add_lang)]"
    by (simp add: registered_def rewriting_wrapper_def wrapper_with_def no_callbacks_def
          resolving_def)
  show ?thesis
    using fetch_requestWillFetch_order [OF h, of "network_serving response_200" empty_world "Request ''/a''"]
    by (simp add: spec_network_request_def rewriting_wrapper_def wrapper_with_def
          network_serving_def numeral_3_eq_3)
qed

text \<open>
  C2, as the claim states it, fails: with two rewriting plugins and a network that
  rejects, the \<open>fetchDidFail\<close> callback is called with the rewritten request
  \<open>/a?v=1&l=en\<close>, not with the original request \<open>/a\<close>.
\<close>

theorem fetchDidFail_request_counterexample:
  "RequestWrapper_constructor (Some ''/'') (options_with [version_plugin, lang_plugin, failure_observer])
     = Inr rewriting_wrapper
   \<and> fst (fetch rewriting_wrapper network_down empty_world (Some (Request ''/a'')))
     = Inl (Rejection ''offline'')
   \<and> trace (snd (fetch rewriting_wrapper network_down empty_world (Some (Request ''/a''))))
     = [RequestWillFetchCalled ''version'' (Request ''/a''),
        RequestWillFetchCalled ''lang'' (Request ''/a?v=1''),
        NetworkFetch (Request ''/a?v=1&l=en'') None,
        FetchDidFailCalled ''failures'' (Request ''/a?v=1&l=en'')]
   \<and> Request ''/a?v=1&l=en'' \<noteq> Request ''/a''"
  by (simp add: rewriting_wrapper_constructed)
     (simp add: fetch_def atLeastOne_def rewriting_wrapper_def wrapper_with_def no_callbacks_def
        network_down_def empty_world_def log_event_def add_version_def
        add_lang_def Let_def)

text \<open>
  C2, amended. When the network call inside \<open>fetch\<close> rejects, the \<open>fetchDidFail\<close>
  callbacks are called after the network call, in the order of registration, and each
  one that is called is called with the request the network call was made with: the
  request \<open>Pn(...P1(r))\<close> produced by the \<open>requestWillFetch\<close> rewrites, not the original
  request. When none of them throws, every one is called and \<open>fetch\<close> rejects with the
  network's error.
\<close>

theorem fetchDidFail_receives_network_request:
  assumes "registered (cbs_requestWillFetch (rw_pluginCallbacks W)) = map resolving Ps"
    and "network (spec_network_request r Ps) (rw_fetchOptions W) = Inl err"
    and "obs = registered (cbs_fetchDidFail (rw_pluginCallbacks W))"
  shows "drop (length Ps + 1) (trace_since w (snd (fetch W network w (Some r))))
           = map (\<lambda>(n, cb). FetchDidFailCalled n (spec_network_request r Ps))
               (observers_called obs (spec_network_request r Ps))
       \<and> ((\<forall>(n, cb) \<in> set obs. cb (spec_network_request r Ps) = Returns) \<longrightarrow>
             observers_called obs (spec_network_request r Ps) = obs
             \<and> fst (fetch W network w (Some r)) = Inl err)"
proof -
  have len: "length (spec_requestWillFetch_calls x Ps) = length Ps" for x
    by (induction Ps arbitrary: x) auto
  have calls: "drop (length Ps + 1) (trace_since w (snd (fetch W network w (Some r))))
           = map (\<lambda>(n, cb). FetchDidFailCalled n (spec_network_request r Ps))
               (observers_called obs (spec_network_request r Ps))"
    by (simp add: fetch_resolving [OF assms(1)] assms(2,3) trace_since_def len)
  have outcome: "fst (fetch W network w (Some r)) = Inl err"
    if "\<forall>(n, cb) \<in> set obs. cb (spec_network_request r Ps) = Returns"
    using observers_called_all [OF that]
    by (simp add: fetch_resolving [OF assms(1)] assms(2) assms(3) [symmetric])
  show ?thesis
    using calls outcome observers_called_all [of obs "spec_network_request r Ps"] by blast
qed

theorem fetchDidFail_receives_network_request_witness:
  "fst (fetch rewriting_wrapper network_down empty_world (Some (Request ''/a'')))
     = Inl (Rejection ''offline'')
   \<and> drop 3 (trace_since empty_world
        (snd (fetch rewriting_wrapper network_down empty_world (Some (Request ''/a'')))))
     = [FetchDidFailCalled ''failures'' (add_lang (add_version (Request ''/a'')))]"
proof -
  have h: "registered (cbs_requestWillFetch (rw_pluginCallbacks rewriting_wrapper))
      = map resolving [(''version'', add_version), (''lang'', add_lang)]"
    by (simp add: registered_def rewriting_wrapper_def wrapper_with_def no_callbacks_def
          resolving_def)
  have n: "network_down (spec_network_request (Request ''/a'') [(''version'', add_version), (''lang'', add_lang)])
             (rw_fetchOptions rewriting_wrapper) = Inl (Rejection ''offline'')"
    by (simp add: network_down_def)
  have o: "[(''failures'', \<lambda>r. Returns)]
      = registered (cbs_fetchDidFail (rw_pluginCallbacks rewriting_wrapper))"
    by (simp add: registered_def rewriting_wrapper_def wrapper_with_def no_callbacks_def)
  show ?thesis
    using fetchDidFail_receives_network_request
            [of rewriting_wrapper "[(''version'', add_version), (''lang'', add_lang)]"
                network_down "Request ''/a''" "Rejection ''offline''"
                "[(''failures'', \<lambda>r. Returns)]" empty_world, OF h n o]
    by (simp add: spec_network_request_def numeral_3_eq_3)
qed

text \<open>
  A \<open>fetchDidFail\<close> callback that throws: the callbacks registered after it are not
  called, and \<open>fetch\<close> rejects with what it threw.
\<close>

lemma fetchDidFail_observer_throws:
  "RequestWrapper_constructor (Some ''/'') (options_with [throwing_observer, failure_observer])
     = Inr observed_wrapper
   \<and> fetch observed_wrapper network_down empty_world (Some (Request ''/a''))
     = (Inl (Rejection ''observer failed''),
        empty_world\<lparr> trace := [NetworkFetch (Request ''/a'') None,
                                FetchDidFailCalled ''thrower'' (Request ''/a'')] \<rparr>)"
  by (simp add: RequestWrapper_constructor_def options_with_def throwing_observer_def
        failure_observer_def no_plugin_def register_plugin_def no_callbacks_def push_def
        observed_wrapper_def wrapper_with_def fetch_def atLeastOne_def network_down_def
        empty_world_def log_event_def Let_def)

subsection \<open>The cache write of \<open>fetchAndCache\<close>\<close>

lemma cacheDidUpdate_loop_trace:
  "cacheDidUpdate_loop cbs c old new w =
     (update_thrown cbs c old new,
      w\<lparr> trace := trace w
            @ map (\<lambda>(n, cb). CacheDidUpdateCalled n c old new) (updates_called cbs c old new) \<rparr>)"
proof (induction cbs arbitrary: w)
  case Nil
  then show ?case by (simp add: update_thrown_def updates_called_def)
next
  case (Cons a cbs)
  obtain n cb where a: "a = (n, cb)" by (cases a)
  show ?case
  proof (cases "cb c old new")
    case Returns
    then show ?thesis
      by (simp add: a Cons.IH log_event_def update_thrown_def updates_called_def Let_def)
  next
    case (Throws e)
    then show ?thesis
      by (simp add: a log_event_def update_thrown_def updates_called_def Let_def)
  qed
qed

lemma cachingComplete_effect:
  assumes "no_empty_array (rw_pluginCallbacks W)"
  shows "snd (cachingComplete W w req cacheKey resp resp) =
    (cache_put w (rw_cacheName W) (case cacheKey of Some k \<Rightarrow> k | None \<Rightarrow> req) resp)
       \<lparr> trace := trace w @ spec_caching_calls W w req cacheKey resp \<rparr>"
proof -
  have m: "cbs_cacheWillMatch (rw_pluginCallbacks W) \<noteq> Some []"
    and d: "cbs_cacheDidUpdate (rw_pluginCallbacks W) \<noteq> Some []"
    using assms by (simp_all add: no_empty_array_def)
  have reg: "(registered (cbs_cacheDidUpdate (rw_pluginCallbacks W)) \<noteq> [])
               = (cbs_cacheDidUpdate (rw_pluginCallbacks W) \<noteq> None)"
    using d by (cases "cbs_cacheDidUpdate (rw_pluginCallbacks W)") (simp_all add: registered_def)
  have cbs: "(case cbs_cacheDidUpdate (rw_pluginCallbacks W) of Some l \<Rightarrow> l | None \<Rightarrow> [])
               = registered (cbs_cacheDidUpdate (rw_pluginCallbacks W))"
    by (simp add: registered_def split: option.splits)
  show ?thesis
  proof (cases "response_type resp \<noteq> ''opaque'' \<and> cbs_cacheDidUpdate (rw_pluginCallbacks W) \<noteq> None")
    case False
    then have old: "spec_oldResponse W w req resp = None"
      by (auto simp: spec_oldResponse_def reg)
    from False show ?thesis
      unfolding cachingComplete_def spec_caching_calls_def reg cbs old
      by (auto simp: cacheDidUpdate_loop_trace log_event_def cache_put_def Let_def
            split: option.splits prod.splits)
  next
    case True
    have mt: "match W w (Some req) =
        (Inr (spec_oldResponse W w req resp),
         w\<lparr> trace := trace w @ [CacheMatch (rw_cacheName W) req (rw_matchOptions W)] \<rparr>)"
      using m True
      by (auto simp: match_def atLeastOne_def cache_match_def log_event_def Let_def
            spec_oldResponse_def reg split: option.splits list.splits)
    from True show ?thesis
      unfolding cachingComplete_def spec_caching_calls_def reg cbs
      by (simp add: mt cacheDidUpdate_loop_trace log_event_def cache_put_def Let_def
            split: option.splits prod.splits)
  qed
qed

lemma cachingComplete_outcome:
  assumes "no_empty_array (rw_pluginCallbacks W)"
  shows "fst (cachingComplete W w req cacheKey resp resp) =
    (case update_thrown (registered (cbs_cacheDidUpdate (rw_pluginCallbacks W)))
            (rw_cacheName W) (spec_oldResponse W w req resp) resp of
       None \<Rightarrow> Inr ()
     | Some e \<Rightarrow> Inl e)"
proof -
  have m: "cbs_cacheWillMatch (rw_pluginCallbacks W) \<noteq> Some []"
    and d: "cbs_cacheDidUpdate (rw_pluginCallbacks W) \<noteq> Some []"
    using assms by (simp_all add: no_empty_array_def)
  have reg: "(registered (cbs_cacheDidUpdate (rw_pluginCallbacks W)) \<noteq> [])
               = (cbs_cacheDidUpdate (rw_pluginCallbacks W) \<noteq> None)"
    using d by (cases "cbs_cacheDidUpdate (rw_pluginCallbacks W)") (simp_all add: registered_def)
  have cbs: "(case cbs_cacheDidUpdate (rw_pluginCallbacks W) of Some l \<Rightarrow> l | None \<Rightarrow> [])
               = registered (cbs_cacheDidUpdate (rw_pluginCallbacks W))"
    by (simp add: registered_def split: option.splits)
  show ?thesis
  proof (cases "response_type resp \<noteq> ''opaque'' \<and> cbs_cacheDidUpdate (rw_pluginCallbacks W) \<noteq> None")
    case False
    then have old: "spec_oldResponse W w req resp = None"
      by (auto simp: spec_oldResponse_def reg)
    from False show ?thesis
      unfolding cachingComplete_def reg cbs old
      by (auto simp: cacheDidUpdate_loop_trace Let_def split: option.splits prod.splits)
  next
    case True
    have mt: "match W w (Some req) =
        (Inr (spec_oldResponse W w req resp),
         w\<lparr> trace := trace w @ [CacheMatch (rw_cacheName W) req (rw_matchOptions W)] \<rparr>)"
      using m True
      by (auto simp: match_def atLeastOne_def cache_match_def log_event_def Let_def
            spec_oldResponse_def reg split: option.splits list.splits)
    from True show ?thesis
      unfolding cachingComplete_def reg cbs
      by (simp add: mt cacheDidUpdate_loop_trace Let_def split: option.splits prod.splits)
  qed
qed

text \<open>
  How \<open>fetchAndCache\<close> settles once the fetch has given a response: with
  \<open>waitOnCache\<close> and a cacheable response it waits for the caching, and rejects with
  what a \<open>cacheDidUpdate\<close> callback threw, if one did.
\<close>

lemma fetchAndCache_outcome:
  assumes wf: "no_empty_array (rw_pluginCallbacks W)"
    and f: "fetch W network w (Some req) = (Inr resp, w1)"
  shows "fst (fetchAndCache W network w (Some req) waitOnCache cacheKey) =
    (if spec_cacheable W req resp then
       (if waitOnCache then
          (case update_thrown (registered (cbs_cacheDidUpdate (rw_pluginCallbacks W)))
                  (rw_cacheName W) (spec_oldResponse W w1 req resp) resp of
             None \<Rightarrow> Inr resp
           | Some e \<Rightarrow> Inl e)
        else Inr resp)
     else if waitOnCache then Inl (createError ''invalid-reponse-for-caching'')
     else Inr resp)"
proof -
  have u: "cbs_cacheWillUpdate (rw_pluginCallbacks W) \<noteq> Some []"
    using wf by (simp add: no_empty_array_def)
  obtain res w2 where cc: "cachingComplete W w1 req cacheKey resp resp = (res, w2)"
    by (cases "cachingComplete W w1 req cacheKey resp resp")
  with cachingComplete_outcome [OF wf, of w1 req cacheKey resp]
  have res: "res = (case update_thrown (registered (cbs_cacheDidUpdate (rw_pluginCallbacks W)))
            (rw_cacheName W) (spec_oldResponse W w1 req resp) resp of
       None \<Rightarrow> Inr ()
     | Some e \<Rightarrow> Inl e)"
    by simp
  show ?thesis
    using u
    by (auto simp: fetchAndCache_def atLeastOne_def f spec_cacheable_def cc res Let_def
          split: option.splits list.splits)
qed

lemma run_suspended_none: "suspended_callbacks w = [] \<Longrightarrow> run_suspended w = w"
  by (simp add: run_suspended_def)

lemma fetchAndCache_settled:
  assumes wf: "no_empty_array (rw_pluginCallbacks W)"
    and s: "suspended_callbacks w = []"
    and f: "fetch W network w (Some req) = (Inr resp, w1)"
  shows "run_suspended (snd (fetchAndCache W network w (Some req) waitOnCache cacheKey)) =
    (if spec_cacheable W req resp
     then (cache_put w1 (rw_cacheName W) (case cacheKey of Some k \<Rightarrow> k | None \<Rightarrow> req) resp)
              \<lparr> trace := trace w1 @ spec_caching_calls W w1 req cacheKey resp \<rparr>
     else w1)"
proof -
  from fetch_only_trace [OF f] obtain evs where "w1 = w\<lparr> trace := trace w @ evs \<rparr>" by blast
  with s have s1: "suspended_callbacks w1 = []" by simp
  have u: "cbs_cacheWillUpdate (rw_pluginCallbacks W) \<noteq> Some []"
    using wf by (simp add: no_empty_array_def)
  have same: "w1\<lparr> suspended_callbacks := [] \<rparr> = w1" using s1 by simp
  let ?done = "(cache_put w1 (rw_cacheName W) (case cacheKey of Some k \<Rightarrow> k | None \<Rightarrow> req) resp)
              \<lparr> trace := trace w1 @ spec_caching_calls W w1 req cacheKey resp \<rparr>"
  have cc: "snd (cachingComplete W w1 req cacheKey resp resp) = ?done"
    by (rule cachingComplete_effect [OF wf])
  show ?thesis
  proof (cases "spec_cacheable W req resp")
    case False
    then have "snd (fetchAndCache W network w (Some req) waitOnCache cacheKey) = w1"
      using u
      by (auto simp: fetchAndCache_def atLeastOne_def f spec_cacheable_def Let_def
            split: option.splits list.splits)
    with False s1 show ?thesis by (simp add: run_suspended_none)
  next
    case True
    show ?thesis
    proof (cases waitOnCache)
      case True
      have "snd (fetchAndCache W network w (Some req) waitOnCache cacheKey) =
          snd (cachingComplete W w1 req cacheKey resp resp)"
        using u \<open>spec_cacheable W req resp\<close> True
        by (auto simp: fetchAndCache_def atLeastOne_def f spec_cacheable_def
              Let_def split: option.splits list.splits prod.splits sum.splits)
      with \<open>spec_cacheable W req resp\<close> s1 show ?thesis
        by (simp add: cc run_suspended_none cache_put_def)
    next
      case False
      have "snd (fetchAndCache W network w (Some req) waitOnCache cacheKey) =
          w1\<lparr> suspended_callbacks := [AwaitGetCache W req cacheKey resp resp] \<rparr>"
        using u \<open>spec_cacheable W req resp\<close> False s1
        by (auto simp: fetchAndCache_def atLeastOne_def f spec_cacheable_def
              Let_def split: option.splits list.splits)
      with \<open>spec_cacheable W req resp\<close> show ?thesis
        by (simp add: run_suspended_def same cc)
    qed
  qed
qed

text \<open>
  C3. The claim is that \<open>fetchAndCache\<close> with \<open>waitOnCache\<close> true and a response
  that is not cacheable fails with the identifier \<open>invalid-response-for-caching\<close>. For
  a wrapper without plugins and a network that answers 404, the call fails with an error
  created under the name \<open>invalid-reponse-for-caching\<close>, which is not that identifier.
\<close>

theorem invalid_response_identifier_misspelt:
  "fst (fetchAndCache plain_wrapper (network_serving response_404) empty_world
          (Some (Request ''/a'')) True None)
     = Inl (createError ''invalid-reponse-for-caching'')
   \<and> createError ''invalid-reponse-for-caching'' \<noteq> createError ''invalid-response-for-caching''"
  by (simp add: fetchAndCache_def fetch_def atLeastOne_def plain_wrapper_def wrapper_with_def
        no_callbacks_def network_serving_def ok_def response_404_def createError_def Let_def)



text \<open>
  C8, as the claim states it, fails: a wrapper with the expiration plugin, whose cache
  holds a stale response for the request, stores a new response, and the
  \<open>cacheDidUpdate\<close> callback is called with no old response although the cache held
  one before the put.
\<close>

theorem cacheDidUpdate_oldResponse_counterexample:
  "RequestWrapper_constructor (Some ''/'') (options_with [expiration_plugin]) = Inr expiring_wrapper
   \<and> caches stale_world ''t'' (Request ''/a'') = Some stale_response
   \<and> fst (fetchAndCache expiring_wrapper (network_serving response_200) stale_world
            (Some (Request ''/a'')) True None) = Inr response_200
   \<and> trace (snd (fetchAndCache expiring_wrapper (network_serving response_200) stale_world
            (Some (Request ''/a'')) True None))
     = [NetworkFetch (Request ''/a'') None,
        CacheMatch ''t'' (Request ''/a'') None,
        CachePut ''t'' (Request ''/a'') response_200,
        CacheDidUpdateCalled ''expiration'' ''t'' None response_200]"
proof -
  have stale: "cacheWillMatch ttl_plugin example_parseDate 20000 (Some stale_response) None = None"
    by (simp add: cacheWillMatch_def isResponseFresh_def ttl_plugin_def example_parseDate_def
          stale_response_def headers_get_def Let_def)
  show ?thesis
    by (simp add: expiring_wrapper_constructed)
       (simp add: fetchAndCache_def fetch_def cachingComplete_def match_def atLeastOne_def
          expiring_wrapper_def wrapper_with_def no_callbacks_def network_serving_def
          stale_world_def log_event_def cache_put_def cache_match_def ok_def response_200_def
          stale Let_def)
qed

text \<open>
  C8, amended. For every \<open>fetchAndCache\<close> call that performs a cache write: the lookup
  of the old response is made, before the put, exactly when at least one
  \<open>cacheDidUpdate\<close> callback is registered and the new response is not opaque; the old
  response passed to each \<open>cacheDidUpdate\<close> callback is then what the wrapper's
  \<open>match\<close> gives for the request before the put (the cached value, passed through the
  \<open>cacheWillMatch\<close> callback when one is registered), and \<open>undefined\<close> when no lookup
  is made.
\<close>

theorem cacheDidUpdate_oldResponse:
  assumes "RequestWrapper_constructor registration opts = Inr W"
    and "suspended_callbacks w = []"
    and "fetch W network w (Some req) = (Inr resp, w1)"
    and "spec_cacheable W req resp"
    and "w' = run_suspended (snd (fetchAndCache W network w (Some req) waitOnCache cacheKey))"
  shows "trace_since w1 w' = spec_caching_calls W w1 req cacheKey resp
       \<and> (CacheMatch (rw_cacheName W) req (rw_matchOptions W) \<in> set (trace_since w1 w')
            \<longleftrightarrow> registered (cbs_cacheDidUpdate (rw_pluginCallbacks W)) \<noteq> []
                 \<and> response_type resp \<noteq> ''opaque'')
       \<and> caches w1 = caches w"
proof -
  have wf: "no_empty_array (rw_pluginCallbacks W)"
    using assms(1) by (rule constructor_no_empty_array)
  from fetch_only_trace [OF assms(3)] have c1: "caches w1 = caches w" by auto
  have t: "trace_since w1 w' = spec_caching_calls W w1 req cacheKey resp"
    unfolding assms(5) fetchAndCache_settled [OF wf assms(2,3)]
    by (simp add: assms(4) trace_since_def)
  have "CacheMatch (rw_cacheName W) req (rw_matchOptions W)
          \<in> set (spec_caching_calls W w1 req cacheKey resp)
        \<longleftrightarrow> registered (cbs_cacheDidUpdate (rw_pluginCallbacks W)) \<noteq> []
                 \<and> response_type resp \<noteq> ''opaque''"
    by (auto simp: spec_caching_calls_def)
  with t c1 show ?thesis by simp
qed

theorem cacheDidUpdate_oldResponse_witness:
  "trace_since (log_event stale_world (NetworkFetch (Request ''/a'') None))
      (run_suspended (snd (fetchAndCache expiring_wrapper (network_serving response_200)
         stale_world (Some (Request ''/a'')) False None)))
     = [CacheMatch ''t'' (Request ''/a'') None,
        CachePut ''t'' (Request ''/a'') response_200,
        CacheDidUpdateCalled ''expiration'' ''t'' None response_200]"
proof -
  have s: "suspended_callbacks stale_world = []" by (simp add: stale_world_def)
  have f: "fetch expiring_wrapper (network_serving response_200) stale_world (Some (Request ''/a''))
      = (Inr response_200, log_event stale_world (NetworkFetch (Request ''/a'') None))"
    by (simp add: fetch_def atLeastOne_def expiring_wrapper_def wrapper_with_def no_callbacks_def
          network_serving_def Let_def)
  have c: "spec_cacheable expiring_wrapper (Request ''/a'') response_200"
    by (simp add: spec_cacheable_def expiring_wrapper_def wrapper_with_def no_callbacks_def
          ok_def response_200_def)
  have stale: "cacheWillMatch ttl_plugin example_parseDate 20000 (Some stale_response) None = None"
    by (simp add: cacheWillMatch_def isResponseFresh_def ttl_plugin_def example_parseDate_def
          stale_response_def headers_get_def Let_def)
  show ?thesis
    using cacheDidUpdate_oldResponse [OF expiring_wrapper_constructed s f c refl, of False None]
    by (simp add: spec_caching_calls_def spec_oldResponse_def expiring_wrapper_def wrapper_with_def
          no_callbacks_def registered_def response_200_def stale_world_def log_event_def stale
          updates_called_def)
qed

end
